theory Spec2Isabelle
  imports Complex_Main
begin

section \<open>Values and errors\<close>

text \<open>
  Python floats are modelled as real numbers together with the three non-finite values a
  float can hold. Rounding and overflow are not modelled: arithmetic on finite values is
  exact. A division by zero, which numpy answers with \<open>inf\<close> or \<open>nan\<close> and a warning, is
  not modelled either: the results on the likelihood are stated for positive
  uncertainties. Every \<open>raise\<close> of the source is a value of type \<open>error\<close>, returned as
  \<open>Inl\<close>.
\<close>

datatype fl = Fin real | PInf | MInf | NaN

datatype error = ValueError | IndexError | TypeError

fun isfinite :: "fl \<Rightarrow> bool" where
  "isfinite (Fin x) = True"
| "isfinite PInf = False"
| "isfinite MInf = False"
| "isfinite NaN = False"

text \<open>Float addition on the extended values (\<open>inf + -inf\<close> is \<open>nan\<close>).\<close>

fun fl_add :: "fl \<Rightarrow> fl \<Rightarrow> fl" where
  "fl_add (Fin a) (Fin b) = Fin (a + b)"
| "fl_add NaN y = NaN"
| "fl_add x NaN = NaN"
| "fl_add PInf MInf = NaN"
| "fl_add MInf PInf = NaN"
| "fl_add PInf y = PInf"
| "fl_add x PInf = PInf"
| "fl_add MInf y = MInf"
| "fl_add x MInf = MInf"

text \<open>Float comparison \<open>\<le>\<close>: every comparison with \<open>nan\<close> is false.\<close>

fun fl_le :: "fl \<Rightarrow> fl \<Rightarrow> bool" where
  "fl_le NaN y = False"
| "fl_le x NaN = False"
| "fl_le MInf y = True"
| "fl_le x PInf = True"
| "fl_le (Fin a) (Fin b) = (a \<le> b)"
| "fl_le PInf y = False"
| "fl_le x MInf = False"

section \<open>The prior\<close>

text \<open>The module-level dictionary \<open>priors\<close>; its four keys are the constructors.\<close>

datatype param = Log_dust_mass_cold | Temp_cold | Log_dust_mass_hot | Temperature_hot

fun priors :: "param \<Rightarrow> real \<times> real" where
  "priors Log_dust_mass_cold = (-6, 1)"
| "priors Temp_cold = (20, 2000)"
| "priors Log_dust_mass_hot = (-8, 1)"
| "priors Temperature_hot = (20, 3000)"

text \<open>
  \<open>log_prior(theta, n_components)\<close>. Unpacking \<open>theta\<close> into two (four) names raises
  \<open>ValueError\<close> when it has another length; any other component count raises
  \<open>ValueError\<close> as well.
\<close>

definition log_prior :: "real list \<Rightarrow> int \<Rightarrow> error + fl" where
  "log_prior theta n_components =
     (if n_components = 1 then
        (case theta of
           [log_dust_mass_cold, temp_cold] \<Rightarrow>
             if fst (priors Log_dust_mass_cold) < log_dust_mass_cold \<and>
                log_dust_mass_cold < snd (priors Log_dust_mass_cold) \<and>
                fst (priors Temp_cold) < temp_cold \<and> temp_cold < snd (priors Temp_cold)
             then Inr (Fin 0) else Inr MInf
         | _ \<Rightarrow> Inl ValueError)
      else if n_components = 2 then
        (case theta of
           [log_dust_mass_cold, temp_cold, log_dust_mass_hot, temperature_hot] \<Rightarrow>
             if fst (priors Log_dust_mass_cold) < log_dust_mass_cold \<and>
                log_dust_mass_cold < snd (priors Log_dust_mass_cold) \<and>
                fst (priors Temp_cold) < temp_cold \<and> temp_cold < snd (priors Temp_cold) \<and>
                fst (priors Log_dust_mass_hot) < log_dust_mass_hot \<and>
                log_dust_mass_hot < snd (priors Log_dust_mass_hot) \<and>
                fst (priors Temperature_hot) < temperature_hot \<and>
                temperature_hot < snd (priors Temperature_hot)
             then (if temperature_hot > temp_cold then Inr (Fin 0) else Inr MInf)
             else Inr MInf
         | _ \<Rightarrow> Inl ValueError)
      else Inl ValueError)"

section \<open>Library functions taken as parameters\<close>

text \<open>
  The functions below belong to libraries (scipy, astropy) or to the module \<open>utils\<close>; the
  model takes them as the fields of one record, and a result holds for every choice of
  them that meets the hypotheses it states.
  \<^item> \<open>erf\<close>: \<open>scipy.special.erf\<close>;
  \<^item> \<open>blackbody\<close>: \<open>BlackBody(temperature)\<close>, the error it raises for that temperature
    or else the spectral radiance in erg/s/cm2/sr/Hz as a function of the wavelength in
    micron, applied to an array entry by entry;
  \<^item> \<open>msun_g\<close>: the solar mass in gram, the factor of the conversion to erg/s/Hz;
  \<^item> \<open>calc_distance\<close>, \<open>import_coefficients\<close>, \<open>interpolate_kappa\<close>,
    \<open>calc_filter_flux\<close>: the functions of \<open>utils\<close> of the same names.
\<close>

record lib =
  erf :: "real \<Rightarrow> real"
  blackbody :: "real \<Rightarrow> error + (real \<Rightarrow> real)"
  msun_g :: real
  calc_distance :: "real \<Rightarrow> real"
  import_coefficients :: "real \<Rightarrow> string \<Rightarrow> bool \<Rightarrow> real list \<times> real list"
  interpolate_kappa :: "real list \<Rightarrow> real list \<Rightarrow> real list \<Rightarrow> real list"
  calc_filter_flux :: "real list \<Rightarrow> real list \<Rightarrow> real list \<Rightarrow> real list \<Rightarrow> real"

section \<open>The physical model\<close>

text \<open>
  A luminosity is either a bare array or a quantity with a unit. Of the units only the two
  that \<open>calc_flux\<close> accepts are told apart.
\<close>

datatype lum_unit = Erg_s_Hz | Erg_s_AA | Other_unit

datatype luminosity = Bare "real list" | Quantity "real list" lum_unit

text \<open>
  Elementwise arithmetic of two arrays as numpy does it: equal lengths, or one of the two
  of length one, else \<open>ValueError\<close>.
\<close>

definition broadcast2 :: "(real \<Rightarrow> real \<Rightarrow> real) \<Rightarrow> real list \<Rightarrow> real list \<Rightarrow> error + real list" where
  "broadcast2 f xs ys =
     (if length xs = length ys then Inr (map2 f xs ys)
      else if length xs = 1 then Inr (map (f (hd xs)) ys)
      else if length ys = 1 then Inr (map (\<lambda>x. f x (hd ys)) xs)
      else Inl ValueError)"

text \<open>
  The equivalence \<open>spectral_density(wave)\<close> between a density per Hz and one per Angstrom,
  at a wavelength in micron: \<open>f_lambda = f_nu * c / wave^2\<close> with \<open>c\<close> in Angstrom per second.
\<close>

definition c_AA_s :: real where
  "c_AA_s = 299792458 * 10 ^ 10"

definition nu_to_lambda :: "real \<Rightarrow> real \<Rightarrow> real" where
  "nu_to_lambda wave f = f * c_AA_s / (wave * 10 ^ 4) ^ 2"

definition lambda_to_nu :: "real \<Rightarrow> real \<Rightarrow> real" where
  "lambda_to_nu wave f = f * (wave * 10 ^ 4) ^ 2 / c_AA_s"

definition calc_luminosity ::
  "lib \<Rightarrow> real list \<Rightarrow> real list \<Rightarrow> real \<Rightarrow> real \<Rightarrow> string \<Rightarrow> error + luminosity" where
  "calc_luminosity lb rest_wave kappa_interp dust_mass temperature output_units =
     (if length rest_wave \<noteq> length kappa_interp then Inl ValueError
      else case blackbody lb temperature of
        Inl e \<Rightarrow> Inl e
      | Inr bb \<Rightarrow>
         (let bb_radiance = map bb rest_wave;
              luminosity_in = map2 (\<lambda>k b. dust_mass * k * b * (4 * pi)) kappa_interp bb_radiance
          in if output_units = ''nu'' then
               Inr (Quantity (map (\<lambda>x. x * msun_g lb) luminosity_in) Erg_s_Hz)
             else if output_units = ''lambda'' then
               Inr (Quantity (map2 nu_to_lambda rest_wave (map (\<lambda>x. x * msun_g lb) luminosity_in))
                      Erg_s_AA)
             else Inl ValueError))"

text \<open>
  \<open>calc_flux\<close>, with the distance in cm. The result is the array of values, in the unit
  that \<open>output_units\<close> names: Jy (1e-23 erg/s/cm2/Hz), erg/s/cm2/Hz or erg/s/cm2/AA.
  The divisions are those of the reals: at a distance of zero or a redshift of \<open>-1\<close>,
  where numpy returns \<open>inf\<close> or \<open>nan\<close>, the definition does not follow the code, and the
  results on \<open>calc_flux\<close> are stated for a non-zero distance and a positive redshift.
\<close>

definition calc_flux ::
  "real list \<Rightarrow> luminosity \<Rightarrow> real \<Rightarrow> real \<Rightarrow> string \<Rightarrow> error + real list" where
  "calc_flux rest_wave luminosity distance redshift output_units =
     (case luminosity of
        Bare l \<Rightarrow> Inl ValueError
      | Quantity l unit \<Rightarrow>
         if unit = Erg_s_Hz then
           (let flux_in = map (\<lambda>x. x / (4 * pi * distance ^ 2) * (1 + redshift)) l;
                obs_wave = map (\<lambda>w. w * (1 + redshift)) rest_wave
            in if output_units = ''Jy'' then Inr (map (\<lambda>x. x * 10 ^ 23) flux_in)
               else if output_units = ''nu'' then Inr flux_in
               else if output_units = ''lambda'' then broadcast2 nu_to_lambda obs_wave flux_in
               else Inl ValueError)
         else if unit = Erg_s_AA then
           (let flux_in = map (\<lambda>x. x / (4 * pi * distance ^ 2) / (1 + redshift)) l;
                obs_wave = map (\<lambda>w. w * (1 + redshift)) rest_wave
            in if output_units = ''Jy'' then
                 (case broadcast2 lambda_to_nu obs_wave flux_in of
                    Inl e \<Rightarrow> Inl e
                  | Inr f \<Rightarrow> Inr (map (\<lambda>x. x * 10 ^ 23) f))
               else if output_units = ''nu'' then broadcast2 lambda_to_nu obs_wave flux_in
               else if output_units = ''lambda'' then Inr flux_in
               else Inl ValueError)
         else Inl ValueError)"

definition calc_model_flux ::
  "lib \<Rightarrow> real list \<Rightarrow> real \<Rightarrow> real \<Rightarrow> real \<Rightarrow> real option \<Rightarrow> real list option \<Rightarrow>
   real list option \<Rightarrow> real list option \<Rightarrow> real \<Rightarrow> string \<Rightarrow> bool \<Rightarrow> error + real list" where
  "calc_model_flux lb obs_wave dust_mass temperature redshift distance wave_kappa kappa
     kappa_interp grain_size composition interp_grain =
     (let rest_wave = map (\<lambda>w. w / (1 + redshift)) obs_wave;
          kappa_interp' =
            (case kappa_interp of
               Some k \<Rightarrow> k
             | None \<Rightarrow>
                (case (wave_kappa, kappa) of
                   (Some wk, Some k) \<Rightarrow> interpolate_kappa lb wk k rest_wave
                 | _ \<Rightarrow>
                    (let (wk, k) = import_coefficients lb grain_size composition interp_grain
                     in interpolate_kappa lb wk k rest_wave)));
          distance' = (case distance of Some d \<Rightarrow> d | None \<Rightarrow> calc_distance lb redshift)
      in case calc_luminosity lb rest_wave kappa_interp' dust_mass temperature ''nu'' of
           Inl e \<Rightarrow> Inl e
         | Inr luminosity \<Rightarrow> calc_flux rest_wave luminosity distance' redshift ''Jy'')"

text \<open>
  The loop of \<open>model_flux\<close> over the filters: \<open>flux_model[i] = calc_filter_flux(...)\<close> for
  \<open>i\<close> in \<open>range(len(obs_wave_filters))\<close>. Subscripting \<open>None\<close> raises \<open>TypeError\<close>, an
  index past the end raises \<open>IndexError\<close>.
\<close>

fun apply_filters ::
  "lib \<Rightarrow> real list \<Rightarrow> real list \<Rightarrow> real list list \<Rightarrow> real list list option \<Rightarrow>
   nat list \<Rightarrow> real list \<Rightarrow> error + real list" where
  "apply_filters lb obs_wave flux obs_wave_filters obs_trans_filters [] flux_model = Inr flux_model"
| "apply_filters lb obs_wave flux obs_wave_filters obs_trans_filters (i # rest) flux_model =
     (case obs_trans_filters of
        None \<Rightarrow> Inl TypeError
      | Some tfs \<Rightarrow>
         if length tfs \<le> i then Inl IndexError
         else if length flux_model \<le> i then Inl IndexError
         else apply_filters lb obs_wave flux obs_wave_filters obs_trans_filters rest
                (flux_model[i := calc_filter_flux lb obs_wave flux (obs_wave_filters ! i) (tfs ! i)]))"

definition model_flux ::
  "lib \<Rightarrow> real list \<Rightarrow> real list \<Rightarrow> real list \<Rightarrow> real list \<Rightarrow> real \<Rightarrow> real \<Rightarrow> int \<Rightarrow>
   real list list option \<Rightarrow> real list list option \<Rightarrow> error + real list" where
  "model_flux lb theta obs_wave obs_flux kappa_interp redshift distance n_components
     obs_wave_filters obs_trans_filters =
     (case
        (if n_components = 1 then
           (case theta of
              [log_dust_mass_cold, temp_cold] \<Rightarrow>
                calc_model_flux lb obs_wave (10 powr log_dust_mass_cold) temp_cold redshift
                  (Some distance) None None (Some kappa_interp) 0.1 ''carbon'' False
            | _ \<Rightarrow> Inl ValueError)
         else if n_components = 2 then
           (case theta of
              [log_dust_mass_cold, temp_cold, log_dust_mass_hot, temp_hot] \<Rightarrow>
                (case calc_model_flux lb obs_wave (10 powr log_dust_mass_cold) temp_cold redshift
                        (Some distance) None None (Some kappa_interp) 0.1 ''carbon'' False of
                   Inl e \<Rightarrow> Inl e
                 | Inr flux1 \<Rightarrow>
                    (case calc_model_flux lb obs_wave (10 powr log_dust_mass_hot) temp_hot redshift
                            (Some distance) None None (Some kappa_interp) 0.1 ''carbon'' False of
                       Inl e \<Rightarrow> Inl e
                     | Inr flux2 \<Rightarrow> broadcast2 (+) flux1 flux2))
            | _ \<Rightarrow> Inl ValueError)
         else Inl ValueError)
      of
        Inl e \<Rightarrow> Inl e
      | Inr flux \<Rightarrow>
         (case obs_wave_filters of
            Some wfs \<Rightarrow>
              apply_filters lb obs_wave flux wfs obs_trans_filters [0..<length wfs]
                (replicate (length obs_flux) 0)
          | None \<Rightarrow> Inr flux))"

section \<open>The likelihood with upper limits\<close>

text \<open>
  Indexing an array with a boolean mask: the entries at the positions where the mask is
  true; a mask of another length raises \<open>IndexError\<close>.
\<close>

definition mask :: "bool list \<Rightarrow> real list \<Rightarrow> error + real list" where
  "mask m xs =
     (if length m \<noteq> length xs then Inl IndexError
      else Inr (map snd (filter fst (zip m xs))))"

text \<open>\<open>np.where(obs_limits)[0]\<close>: the indices of the upper limits, in increasing order.\<close>

definition where_true :: "bool list \<Rightarrow> nat list" where
  "where_true m = filter (\<lambda>j. m ! j) [0..<length m]"

text \<open>
  The block under \<open>if np.any(is_detection)\<close>: the Gaussian term of the detections and its
  normalisation, subtracted from \<open>ln_like\<close>.
\<close>

definition detections_term ::
  "real list \<Rightarrow> real list \<Rightarrow> bool list \<Rightarrow> real list \<Rightarrow> real \<Rightarrow> error + real" where
  "detections_term obs_flux obs_flux_err is_detection flux_model ln_like =
     (case mask is_detection obs_flux of
        Inl e \<Rightarrow> Inl e
      | Inr det_obs \<Rightarrow>
         (case mask is_detection flux_model of
            Inl e \<Rightarrow> Inl e
          | Inr det_model \<Rightarrow>
             (case broadcast2 (-) det_obs det_model of
                Inl e \<Rightarrow> Inl e
              | Inr det_error \<Rightarrow>
                 (case mask is_detection obs_flux_err of
                    Inl e \<Rightarrow> Inl e
                  | Inr det_err \<Rightarrow>
                     (let det_weight = map (\<lambda>s. 1 / s ^ 2) det_err
                      in case broadcast2 (\<lambda>w d. w * d ^ 2) det_weight det_error of
                           Inl e \<Rightarrow> Inl e
                         | Inr terms \<Rightarrow>
                            Inr (ln_like - 0.5 * sum_list terms
                                  - 0.5 * sum_list (map (\<lambda>s. ln (2 * pi * s ^ 2)) det_err)))))))"

text \<open>
  The loop \<open>for j in np.where(obs_limits)[0]\<close>, with \<open>ln_like\<close> as the accumulator. An index
  past the end of one of the three arrays raises \<open>IndexError\<close>.
\<close>

fun limits_loop ::
  "lib \<Rightarrow> real list \<Rightarrow> real list \<Rightarrow> real list \<Rightarrow> nat list \<Rightarrow> fl \<Rightarrow> error + fl" where
  "limits_loop lb flux_model obs_flux obs_flux_err [] ln_like = Inr ln_like"
| "limits_loop lb flux_model obs_flux obs_flux_err (j # rest) ln_like =
     (if length flux_model \<le> j \<or> length obs_flux \<le> j \<or> length obs_flux_err \<le> j
      then Inl IndexError
      else
        (let z = (flux_model ! j - obs_flux ! j) / obs_flux_err ! j;
             prob = 0.5 * (1 + erf lb (z / sqrt 2))
         in limits_loop lb flux_model obs_flux obs_flux_err rest
              (fl_add ln_like (if prob > 0 then Fin (ln prob) else MInf))))"

definition log_likelihood ::
  "lib \<Rightarrow> real list \<Rightarrow> real list \<Rightarrow> real list \<Rightarrow> real list \<Rightarrow> bool list \<Rightarrow> real list \<Rightarrow>
   real \<Rightarrow> real \<Rightarrow> int \<Rightarrow> real list list option \<Rightarrow> real list list option \<Rightarrow> error + fl" where
  "log_likelihood lb theta obs_wave obs_flux obs_flux_err obs_limits kappa_interp redshift
     distance n_components obs_wave_filters obs_trans_filters =
     (case model_flux lb theta obs_wave obs_flux kappa_interp redshift distance n_components
             obs_wave_filters obs_trans_filters of
        Inl e \<Rightarrow> Inl e
      | Inr flux_model \<Rightarrow>
         (let is_detection = map Not obs_limits
          in case (if list_ex id is_detection
                   then detections_term obs_flux obs_flux_err is_detection flux_model 0
                   else Inr 0) of
               Inl e \<Rightarrow> Inl e
             | Inr ln_like \<Rightarrow>
                if list_ex id obs_limits
                then limits_loop lb flux_model obs_flux obs_flux_err (where_true obs_limits)
                       (Fin ln_like)
                else Inr (Fin ln_like)))"

section \<open>The posterior\<close>

definition log_probability ::
  "lib \<Rightarrow> real list \<Rightarrow> real list \<Rightarrow> real list \<Rightarrow> real list \<Rightarrow> bool list \<Rightarrow> real list \<Rightarrow>
   real \<Rightarrow> real \<Rightarrow> int \<Rightarrow> real list list option \<Rightarrow> real list list option \<Rightarrow> error + fl" where
  "log_probability lb theta obs_wave obs_flux obs_flux_err obs_limits kappa_interp redshift
     distance n_components obs_wave_filters obs_trans_filters =
     (case log_prior theta n_components of
        Inl e \<Rightarrow> Inl e
      | Inr lp \<Rightarrow>
         if \<not> isfinite lp then Inr MInf
         else
           (case log_likelihood lb theta obs_wave obs_flux obs_flux_err obs_limits kappa_interp
                   redshift distance n_components obs_wave_filters obs_trans_filters of
              Inl e \<Rightarrow> Inl e
            | Inr ll \<Rightarrow> Inr (fl_add lp ll)))"

section \<open>Initial walker positions\<close>

text \<open>
  The rows of \<open>pos_in\<close> whose prior is finite:
  \<open>pos_in[[np.isfinite(log_prior(i, n_components)) for i in pos_in]]\<close>.
  The first row on which \<open>log_prior\<close> raises ends the comprehension with that error.
\<close>

fun finite_prior_rows :: "int \<Rightarrow> real list list \<Rightarrow> error + real list list" where
  "finite_prior_rows n_components [] = Inr []"
| "finite_prior_rows n_components (i # rest) =
     (case log_prior i n_components of
        Inl e \<Rightarrow> Inl e
      | Inr lp \<Rightarrow>
         (case finite_prior_rows n_components rest of
            Inl e \<Rightarrow> Inl e
          | Inr pos \<Rightarrow> Inr (if isfinite lp then i # pos else pos)))"

text \<open>
  The loop \<open>while len(pos_out) < n_walkers\<close> of \<open>fit_dust_model\<close>. \<open>pos_in\<close> is the batch that
  \<open>create_prior\<close> drew; the loop does not draw again. The loop need not end, so its result
  is an option and \<open>None\<close> stands for a run that never leaves the loop.
\<close>

partial_function (option) assemble_loop ::
  "int \<Rightarrow> nat \<Rightarrow> real list list \<Rightarrow> real list list \<Rightarrow> (error + real list list) option" where
  "assemble_loop n_components n_walkers pos_in pos_out =
     (if length pos_out < n_walkers then
        (case finite_prior_rows n_components pos_in of
           Inl e \<Rightarrow> Some (Inl e)
         | Inr pos \<Rightarrow> assemble_loop n_components n_walkers pos_in (pos_out @ pos))
      else Some (Inr pos_out))"

text \<open>
  Lines 898 to 908: \<open>pos_out = pos_in[0:1]\<close>, the loop, and the crop
  \<open>pos_out[1:n_walkers+1]\<close> taken when the length is not \<open>n_walkers\<close>.
\<close>

definition initial_positions ::
  "int \<Rightarrow> nat \<Rightarrow> real list list \<Rightarrow> (error + real list list) option" where
  "initial_positions n_components n_walkers pos_in =
     (case assemble_loop n_components n_walkers pos_in (take 1 pos_in) of
        None \<Rightarrow> None
      | Some (Inl e) \<Rightarrow> Some (Inl e)
      | Some (Inr pos_out) \<Rightarrow>
         Some (Inr (if length pos_out \<noteq> n_walkers
                    then take n_walkers (drop 1 pos_out) else pos_out)))"

section \<open>The summary of the chain\<close>

text \<open>
  The chain of the sampler has one entry per walker, each the list of the positions of that
  walker at every step of every run. \<open>a[i:]\<close> on a list, for a Python integer \<open>i\<close>:
\<close>

definition slice_from :: "int \<Rightarrow> 'a list \<Rightarrow> 'a list" where
  "slice_from i xs = (if i < 0 then drop (nat (int (length xs) + i)) xs else drop (nat i) xs)"

text \<open>\<open>int(x)\<close> of a float: truncation towards zero.\<close>

definition py_int :: "real \<Rightarrow> int" where
  "py_int x = (if 0 \<le> x then \<lfloor>x\<rfloor> else \<lceil>x\<rceil>)"

text \<open>
  \<open>samples_crop\<close>: the retained steps of every walker, flattened walker by walker
  (\<open>reshape((-1, n_dim))\<close>).
\<close>

definition samples_crop :: "int \<Rightarrow> int \<Rightarrow> real \<Rightarrow> real list list list \<Rightarrow> real list list" where
  "samples_crop repeats n_steps burn_in chain =
     (if repeats > 1 then concat (map (slice_from (- n_steps)) chain)
      else concat (map (slice_from (- py_int (real_of_int n_steps * (1 - burn_in)))) chain))"

text \<open>
  \<open>np.percentile\<close> is a parameter: \<open>percentile xs q\<close> is the \<open>q\<close>-th percentile of \<open>xs\<close>.
  The triple \<open>(v[1], v[2]-v[1], v[1]-v[0])\<close> of the percentiles 15.87, 50 and 84.13:
\<close>

definition interval_of :: "(real list \<Rightarrow> real \<Rightarrow> real) \<Rightarrow> real list \<Rightarrow> real \<times> real \<times> real" where
  "interval_of percentile xs =
     (let v0 = percentile xs 15.87; v1 = percentile xs 50; v2 = percentile xs 84.13
      in (v1, v2 - v1, v1 - v0))"

definition column :: "nat \<Rightarrow> real list list \<Rightarrow> real list" where
  "column d rows = map (\<lambda>r. r ! d) rows"

text \<open>
  The dictionary \<open>results\<close> of \<open>fit_dust_model\<close>, as the list of its items in order. The
  rows of the chain have \<open>n_dim\<close> entries, two per component.
\<close>

definition results_of ::
  "(real list \<Rightarrow> real \<Rightarrow> real) \<Rightarrow> int \<Rightarrow> real list list \<Rightarrow>
   error + (string \<times> real \<times> real \<times> real) list" where
  "results_of percentile n_components crop =
     (if n_components = 1 then
        Inr [(''log_dust_mass_cold'', interval_of percentile (column 0 crop)),
             (''temp_cold'', interval_of percentile (column 1 crop)),
             (''total_dust_mass'',
                interval_of percentile (map (\<lambda>r. 10 powr (r ! 0)) crop))]
      else if n_components = 2 then
        Inr [(''log_dust_mass_cold'', interval_of percentile (column 0 crop)),
             (''temp_cold'', interval_of percentile (column 1 crop)),
             (''log_dust_mass_hot'', interval_of percentile (column 2 crop)),
             (''temperature_hot'', interval_of percentile (column 3 crop)),
             (''total_dust_mass'',
                interval_of percentile (map (\<lambda>r. 10 powr (r ! 0) + 10 powr (r ! 2)) crop))]
      else Inl ValueError)"

definition fit_summary ::
  "(real list \<Rightarrow> real \<Rightarrow> real) \<Rightarrow> int \<Rightarrow> int \<Rightarrow> int \<Rightarrow> real \<Rightarrow> real list list list \<Rightarrow>
   error + (string \<times> real \<times> real \<times> real) list" where
  "fit_summary percentile n_components repeats n_steps burn_in chain =
     results_of percentile n_components (samples_crop repeats n_steps burn_in chain)"

section \<open>Sigma clipping between the runs\<close>

text \<open>
  The random generator of numpy is a pair of parameters read at a counter that every draw
  advances: \<open>rand_index k\<close> is the raw draw behind the \<open>k\<close>-th call when it is
  \<open>np.random.choice\<close>, \<open>rand_normal k mu sd\<close> the value of the \<open>k\<close>-th call when it is
  \<open>np.random.normal(mu, sd)\<close>. The external sampler is a parameter too:
  \<open>run_mcmc k pos n_steps\<close> gives, for every walker, the positions of the \<open>n_steps\<close>
  steps of the run number \<open>k\<close> started at \<open>pos\<close>.
\<close>

record rng =
  rand_index :: "nat \<Rightarrow> nat"
  rand_normal :: "nat \<Rightarrow> real \<Rightarrow> real \<Rightarrow> real"

text \<open>\<open>np.random.choice(a)\<close> raises \<open>ValueError\<close> on an empty array.\<close>

definition random_choice :: "rng \<Rightarrow> nat \<Rightarrow> 'a list \<Rightarrow> error + 'a" where
  "random_choice g c a =
     (if a = [] then Inl ValueError else Inr (a ! (rand_index g c mod length a)))"

text \<open>The finite values of a row, when all of them are finite.\<close>

fun finite_row :: "fl list \<Rightarrow> real list option" where
  "finite_row [] = Some []"
| "finite_row (Fin x # rest) =
     (case finite_row rest of None \<Rightarrow> None | Some r \<Rightarrow> Some (x # r))"
| "finite_row (v # rest) = None"

text \<open>
  The first repair: every walker whose last position holds a non-finite value takes the
  position of a walker chosen among the finite ones, plus noise of deviation \<open>1e-4\<close>.
  \<open>valid_rows\<close> are the positions at \<open>valid_indices\<close>, in order.
\<close>

fun replace_invalid ::
  "rng \<Rightarrow> nat \<Rightarrow> real list list \<Rightarrow> real list option list \<Rightarrow> nat \<Rightarrow>
   error + real list list \<times> nat" where
  "replace_invalid g n_dim valid_rows [] c = Inr ([], c)"
| "replace_invalid g n_dim valid_rows (Some r # rest) c =
     (case replace_invalid g n_dim valid_rows rest c of
        Inl e \<Rightarrow> Inl e
      | Inr (rows, c') \<Rightarrow> Inr (r # rows, c'))"
| "replace_invalid g n_dim valid_rows (None # rest) c =
     (case random_choice g c valid_rows of
        Inl e \<Rightarrow> Inl e
      | Inr chosen \<Rightarrow>
         (let noise = map (\<lambda>d. rand_normal g (c + 1 + d) 0 (1 / 10 ^ 4)) [0..<n_dim]
          in case replace_invalid g n_dim valid_rows rest (c + 1 + n_dim) of
               Inl e \<Rightarrow> Inl e
             | Inr (rows, c') \<Rightarrow> Inr (map2 (+) chosen noise # rows, c')))"

text \<open>\<open>np.median\<close> and \<open>np.std\<close> of a non-empty array.\<close>

definition median :: "real list \<Rightarrow> real" where
  "median xs =
     (let s = sort xs; n = length xs
      in if odd n then s ! (n div 2) else (s ! (n div 2 - 1) + s ! (n div 2)) / 2)"

definition mean :: "real list \<Rightarrow> real" where
  "mean xs = sum_list xs / real (length xs)"

definition std :: "real list \<Rightarrow> real" where
  "std xs = sqrt (mean (map (\<lambda>x. \<bar>x - mean xs\<bar> ^ 2) xs))"

definition clip_stds :: "nat \<Rightarrow> real list list \<Rightarrow> real list" where
  "clip_stds n_dim last_pos = map (\<lambda>d. max (std (column d last_pos)) (1 / 10 ^ 10)) [0..<n_dim]"

definition clip_medians :: "nat \<Rightarrow> real list list \<Rightarrow> real list" where
  "clip_medians n_dim last_pos = map (\<lambda>d. median (column d last_pos)) [0..<n_dim]"

text \<open>
  \<open>valid_walkers\<close>: the walkers within \<open>sigma_clip\<close> deviations of the median in every
  dimension.
\<close>

definition valid_walkers :: "nat \<Rightarrow> real \<Rightarrow> real list list \<Rightarrow> bool list" where
  "valid_walkers n_dim sigma_clip last_pos =
     map (\<lambda>r. list_all (\<lambda>d. \<bar>r ! d - clip_medians n_dim last_pos ! d\<bar>
                               < sigma_clip * clip_stds n_dim last_pos ! d) [0..<n_dim])
         last_pos"

text \<open>The loop \<open>for idx in invalid_indices\<close> that writes the new positions.\<close>

fun replace_outliers ::
  "rng \<Rightarrow> nat \<Rightarrow> real \<Rightarrow> real list \<Rightarrow> nat list \<Rightarrow> real list list \<Rightarrow> nat list \<Rightarrow>
   real list list \<Rightarrow> nat \<Rightarrow> error + real list list \<times> nat" where
  "replace_outliers g n_dim sigma_clip stds valid_indices last_pos [] new_pos c = Inr (new_pos, c)"
| "replace_outliers g n_dim sigma_clip stds valid_indices last_pos (idx # rest) new_pos c =
     (case random_choice g c valid_indices of
        Inl e \<Rightarrow> Inl e
      | Inr valid_idx \<Rightarrow>
         replace_outliers g n_dim sigma_clip stds valid_indices last_pos rest
           (new_pos[idx := map (\<lambda>dim. last_pos ! valid_idx ! dim
                                   + rand_normal g (c + 1 + dim) 0 (stds ! dim / sigma_clip))
                               [0..<n_dim]])
           (c + 1 + n_dim))"

text \<open>
  One pass of the body of the loop of \<open>mcmc_with_sigma_clipping\<close>, up to the call of the
  sampler: from the last positions of the chain to the positions the next run starts at.
\<close>

definition check_repair ::
  "rng \<Rightarrow> nat \<Rightarrow> nat \<Rightarrow> real \<Rightarrow> fl list list \<Rightarrow> nat \<Rightarrow> error + real list list \<times> nat" where
  "check_repair g n_walkers n_dim sigma_clip last_pos c =
     (let rows = map finite_row last_pos
      in case replace_invalid g n_dim (List.map_filter id rows) rows c of
           Inl e \<Rightarrow> Inl e
         | Inr (last_pos', c') \<Rightarrow>
            (let stds = clip_stds n_dim last_pos';
                 valid = valid_walkers n_dim sigma_clip last_pos';
                 valid_indices = where_true valid
             in if length valid_indices < n_walkers then
                  replace_outliers g n_dim sigma_clip stds valid_indices last_pos'
                    (where_true (map Not valid)) last_pos' c'
                else Inr (last_pos', c')))"

text \<open>\<open>sampler.chain[:, -1, :]\<close>; a chain without steps raises \<open>IndexError\<close>.\<close>

definition last_positions :: "fl list list list \<Rightarrow> error + fl list list" where
  "last_positions chain =
     (if list_ex (\<lambda>w. w = []) chain then Inl IndexError else Inr (map last chain))"

fun clipping_runs ::
  "rng \<Rightarrow> (nat \<Rightarrow> real list list \<Rightarrow> nat \<Rightarrow> fl list list list) \<Rightarrow> nat \<Rightarrow> nat \<Rightarrow> nat \<Rightarrow>
   real \<Rightarrow> nat \<Rightarrow> nat \<Rightarrow> fl list list list \<Rightarrow> nat \<Rightarrow> error + fl list list list" where
  "clipping_runs g run_mcmc n_walkers n_dim n_steps sigma_clip 0 i chain c = Inr chain"
| "clipping_runs g run_mcmc n_walkers n_dim n_steps sigma_clip (Suc k) i chain c =
     (case last_positions chain of
        Inl e \<Rightarrow> Inl e
      | Inr last_pos \<Rightarrow>
         (case check_repair g n_walkers n_dim sigma_clip last_pos c of
            Inl e \<Rightarrow> Inl e
          | Inr (pos, c') \<Rightarrow>
             clipping_runs g run_mcmc n_walkers n_dim n_steps sigma_clip k (Suc i)
               (map2 (@) chain (run_mcmc (Suc i) pos n_steps)) c'))"

definition mcmc_with_sigma_clipping ::
  "rng \<Rightarrow> (nat \<Rightarrow> real list list \<Rightarrow> nat \<Rightarrow> fl list list list) \<Rightarrow> real list list \<Rightarrow> nat \<Rightarrow>
   real \<Rightarrow> int \<Rightarrow> error + fl list list list" where
  "mcmc_with_sigma_clipping g run_mcmc pos n_steps sigma_clip repeats =
     (let n_walkers = length pos;
          n_dim = (case pos of [] \<Rightarrow> 0 | r # rest \<Rightarrow> length r)
      in clipping_runs g run_mcmc n_walkers n_dim n_steps sigma_clip (nat (repeats - 1)) 0
           (run_mcmc 0 pos n_steps) 0)"

section \<open>Definitions that follow the specification\<close>

text \<open>
  The prior box as the specification words it: closed intervals, and the hot temperature
  above the cold one.
\<close>

definition spec_prior_box :: "real list \<Rightarrow> bool" where
  "spec_prior_box theta =
     (case theta of
        [log_mass_cold, temp_cold, log_mass_hot, temp_hot] \<Rightarrow>
          -6 \<le> log_mass_cold \<and> log_mass_cold \<le> 1 \<and> 20 \<le> temp_cold \<and> temp_cold \<le> 2000 \<and>
          -8 \<le> log_mass_hot \<and> log_mass_hot \<le> 1 \<and> 20 \<le> temp_hot \<and> temp_hot \<le> 3000 \<and>
          temp_hot > temp_cold
      | _ \<Rightarrow> False)"

text \<open>
  The flux as the specification words it: the factor \<open>1 + z\<close> divides a luminosity per
  unit frequency and multiplies a luminosity per unit wavelength.
\<close>

definition spec_flux :: "real list \<Rightarrow> lum_unit \<Rightarrow> real \<Rightarrow> real \<Rightarrow> real list" where
  "spec_flux l unit distance redshift =
     (if unit = Erg_s_Hz then map (\<lambda>x. x / (4 * pi * distance ^ 2) / (1 + redshift)) l
      else map (\<lambda>x. x / (4 * pi * distance ^ 2) * (1 + redshift)) l)"

text \<open>
  The upper-limit term as the specification words it: the logarithm of the standard
  normal distribution function at \<open>z = (model - obs) / \<sigma>\<close>, written with the error
  function, and \<open>-\<infinity>\<close> where that probability is zero.
\<close>

definition spec_Phi :: "lib \<Rightarrow> real \<Rightarrow> real" where
  "spec_Phi lb z = (1 + erf lb (z / sqrt 2)) / 2"

definition spec_limit_term :: "lib \<Rightarrow> real \<Rightarrow> real \<Rightarrow> real \<Rightarrow> fl" where
  "spec_limit_term lb model obs sigma =
     (if spec_Phi lb ((model - obs) / sigma) = 0 then MInf
      else Fin (ln (spec_Phi lb ((model - obs) / sigma))))"

text \<open>
  The Gaussian term of the specification over the observations at the indices \<open>dets\<close>,
  and the sum of a list of float terms.
\<close>

definition spec_gaussian :: "real list \<Rightarrow> real list \<Rightarrow> real list \<Rightarrow> nat list \<Rightarrow> real" where
  "spec_gaussian model obs sigma dets =
     - (1 / 2) * (\<Sum>j\<leftarrow>dets. ((obs ! j - model ! j) / sigma ! j) ^ 2)
     - (1 / 2) * (\<Sum>j\<leftarrow>dets. ln (2 * pi * (sigma ! j) ^ 2))"

definition fl_sum_list :: "fl list \<Rightarrow> fl" where
  "fl_sum_list ts = foldr fl_add ts (Fin 0)"

text \<open>The values a log-likelihood takes: a finite number or \<open>-\<infinity>\<close>.\<close>

fun lower :: "fl \<Rightarrow> bool" where
  "lower (Fin x) = True"
| "lower MInf = True"
| "lower v = False"

text \<open>
  The retained samples as the specification words them: the last \<open>n_steps\<close> steps of
  every walker when \<open>repeats > 1\<close>, else what is left of every walker once the first
  \<open>burn_in\<close> fraction of the \<open>n_steps\<close> steps, rounded up to whole steps, is discarded.
\<close>

definition spec_samples_crop :: "int \<Rightarrow> int \<Rightarrow> real \<Rightarrow> real list list list \<Rightarrow> real list list" where
  "spec_samples_crop repeats n_steps burn_in chain =
     (if repeats > 1 then concat (map (\<lambda>w. drop (length w - nat n_steps) w) chain)
      else concat (map (\<lambda>w. drop (nat \<lceil>real_of_int n_steps * burn_in\<rceil>) w) chain))"

section \<open>An instance of the library parameters\<close>

text \<open>
  The examples below run the model on this instance: an error function that is monotone,
  odd and saturates at \<open>-1\<close> and \<open>1\<close>, a black body of constant radiance that rejects a
  negative temperature, and unit constants.
\<close>

definition demo_lib :: lib where
  "demo_lib = \<lparr> erf = (\<lambda>x. max (-1) (min 1 x)),
                blackbody = (\<lambda>t. if t < 0 then Inl ValueError else Inr (\<lambda>w. 1 / 10 ^ 23)),
                msun_g = 1,
                calc_distance = (\<lambda>z. 1),
                import_coefficients = (\<lambda>g c i. ([], [])),
                interpolate_kappa = (\<lambda>wk k w. map (\<lambda>x. 1) w),
                calc_filter_flux = (\<lambda>w f wf tf. 0) \<rparr>"

text \<open>
  A random generator that always draws the first candidate and no noise, and an ensemble
  of eight walkers in four dimensions: each walker sits at distance 2 from the others in
  one dimension.
\<close>

definition demo_rng :: rng where
  "demo_rng = \<lparr> rand_index = (\<lambda>k. 0), rand_normal = (\<lambda>k mu sd. mu) \<rparr>"

definition demo_walkers :: "real list list" where
  "demo_walkers = [[2, 0, 0, 0], [-2, 0, 0, 0], [0, 2, 0, 0], [0, -2, 0, 0],
                   [0, 0, 2, 0], [0, 0, -2, 0], [0, 0, 0, 2], [0, 0, 0, -2]]"

section \<open>The direction of the redshift factor in the flux\<close>

text \<open>
  C1 (as the code has it). For every redshift \<open>z > 0\<close>, every positive luminosity array and
  every non-zero distance, \<open>calc_flux\<close> returns the luminosity over \<open>4 \<pi> d^2\<close> with the
  factor \<open>1 + z\<close> applied as a multiplication when the luminosity is per unit frequency
  (erg/s/Hz) and as a division when it is per unit wavelength (erg/s/AA); in Jy the
  per-frequency value is scaled by \<open>10^23\<close>.
\<close>

theorem calc_flux_direction:
  assumes "0 < redshift" "\<forall>x\<in>set l. 0 < x" "distance \<noteq> 0"
  shows "calc_flux rest_wave (Quantity l Erg_s_Hz) distance redshift ''nu''
     = Inr (map (\<lambda>x. x / (4 * pi * distance ^ 2) * (1 + redshift)) l)
   \<and> calc_flux rest_wave (Quantity l Erg_s_AA) distance redshift ''lambda''
     = Inr (map (\<lambda>x. x / (4 * pi * distance ^ 2) / (1 + redshift)) l)
   \<and> calc_flux rest_wave (Quantity l Erg_s_Hz) distance redshift ''Jy''
     = Inr (map (\<lambda>x. x / (4 * pi * distance ^ 2) * (1 + redshift) * 10 ^ 23) l)"
  by (simp add: calc_flux_def)

theorem calc_flux_direction_witness:
  "calc_flux [2] (Quantity [1] Erg_s_Hz) 1 1 ''nu'' = Inr [2 / (4 * pi)]
   \<and> calc_flux [2] (Quantity [1] Erg_s_AA) 1 1 ''lambda'' = Inr [1 / (4 * pi) / 2]
   \<and> calc_flux [2] (Quantity [1] Erg_s_Hz) 1 1 ''Jy'' = Inr [2 / (4 * pi) * 10 ^ 23]"
  using calc_flux_direction [of 1 "[1]" 1 "[2]"] by simp

text \<open>
  The claim as the specification states it fails: a luminosity of 1 erg/s/Hz at distance
  1 cm and redshift 1 gives \<open>2 / (4 \<pi>)\<close>, not \<open>1 / (4 \<pi>) / 2\<close>.
\<close>

theorem calc_flux_direction_counterexample:
  "calc_flux [1] (Quantity [1] Erg_s_Hz) 1 1 ''nu'' \<noteq> Inr (spec_flux [1] Erg_s_Hz 1 1)"
  by (simp add: calc_flux_def spec_flux_def)

text \<open>It fails at every input the claim speaks of, in both units.\<close>

lemma calc_flux_never_as_specified:
  assumes "0 < redshift" "l \<noteq> []" "\<forall>x\<in>set l. 0 < x" "distance \<noteq> 0"
  shows "calc_flux rest_wave (Quantity l Erg_s_Hz) distance redshift ''nu''
           \<noteq> Inr (spec_flux l Erg_s_Hz distance redshift)"
    and "calc_flux rest_wave (Quantity l Erg_s_AA) distance redshift ''lambda''
           \<noteq> Inr (spec_flux l Erg_s_AA distance redshift)"
proof -
  obtain x rest where l: "l = x # rest" using assms(2) by (cases l) auto
  have x: "0 < x" using assms(3) l by simp
  have d: "0 < 4 * pi * distance ^ 2" using assms(4) by simp
  have q: "0 < x / (4 * pi * distance ^ 2)" using x d by simp
  have gen: "q / (1 + redshift) < q * (1 + redshift)" if "0 < q" for q :: real
  proof -
    have "q / (1 + redshift) < q" using that assms(1) by (simp add: field_simps)
    also have "\<dots> < q * (1 + redshift)" using that assms(1) by (simp add: field_simps)
    finally show ?thesis .
  qed
  have "x / (4 * pi * distance ^ 2) / (1 + redshift) < x / (4 * pi * distance ^ 2) * (1 + redshift)"
    by (rule gen [OF q])
  then show "calc_flux rest_wave (Quantity l Erg_s_Hz) distance redshift ''nu''
           \<noteq> Inr (spec_flux l Erg_s_Hz distance redshift)"
    and "calc_flux rest_wave (Quantity l Erg_s_AA) distance redshift ''lambda''
           \<noteq> Inr (spec_flux l Erg_s_AA distance redshift)"
    unfolding calc_flux_def spec_flux_def l by (simp_all add: Let_def)
qed

section \<open>The prior box\<close>

text \<open>
  C3 (as the code has it). With two components \<open>log_prior\<close> returns 0 when every
  parameter lies strictly inside its interval (log-mass-cold in (-6,1), temp-cold in
  (20,2000), log-mass-hot in (-8,1), temp-hot in (20,3000)) and the hot temperature is
  above the cold one, and \<open>-\<infinity>\<close> otherwise, so also on the boundary of the box; with one
  component the same holds for the two cold parameters alone.
\<close>

theorem log_prior_open_box:
  "log_prior [m_cold, t_cold, m_hot, t_hot] 2 =
     Inr (if -6 < m_cold \<and> m_cold < 1 \<and> 20 < t_cold \<and> t_cold < 2000 \<and>
             -8 < m_hot \<and> m_hot < 1 \<and> 20 < t_hot \<and> t_hot < 3000 \<and> t_cold < t_hot
          then Fin 0 else MInf)
   \<and> log_prior [m_cold, t_cold] 1 =
     Inr (if -6 < m_cold \<and> m_cold < 1 \<and> 20 < t_cold \<and> t_cold < 2000 then Fin 0 else MInf)"
  by (simp add: log_prior_def)

theorem log_prior_open_box_witness:
  "log_prior [-3, 100, -5, 500] 2 = Inr (Fin 0) \<and> log_prior [-3, 100] 1 = Inr (Fin 0)"
  using log_prior_open_box [of "-3" 100 "-5" 500] by simp

text \<open>
  The claim as stated fails on the boundary: a cold log-mass of -6 lies in the closed box
  of the specification, and the prior there is \<open>-\<infinity>\<close>.
\<close>

theorem log_prior_closed_box_counterexample:
  "spec_prior_box [-6, 100, 0, 200] \<and> log_prior [-6, 100, 0, 200] 2 = Inr MInf"
  by (simp add: spec_prior_box_def log_prior_def)

section \<open>The likelihood as a sum of terms\<close>

lemma fl_add_assoc: "fl_add (fl_add a b) c = fl_add a (fl_add b c)"
  by (cases a; cases b; cases c) simp_all

lemma fl_add_zero_left [simp]: "fl_add (Fin 0) x = x"
  by (cases x) simp_all

lemma fl_add_zero_right [simp]: "fl_add x (Fin 0) = x"
  by (cases x) simp_all

lemma fl_sum_list_simps [simp]:
  "fl_sum_list [] = Fin 0" "fl_sum_list (t # ts) = fl_add t (fl_sum_list ts)"
  by (simp_all add: fl_sum_list_def)

lemma zip_as_map_nth:
  "length m = length xs \<Longrightarrow> zip m xs = map (\<lambda>j. (m ! j, xs ! j)) [0..<length m]"
  by (rule nth_equalityI) simp_all

lemma mask_nth:
  assumes "length m = length xs"
  shows "mask m xs = Inr (map ((!) xs) (where_true m))"
proof -
  have "map snd (filter fst (zip m xs)) = map ((!) xs) (filter ((!) m) [0..<length m])"
    by (simp add: zip_as_map_nth [OF assms] filter_map comp_def)
  then show ?thesis using assms by (simp add: mask_def where_true_def)
qed

lemma detections_term_eq:
  assumes "length obs_flux = length is_detection" "length obs_flux_err = length is_detection"
    "length flux_model = length is_detection"
  shows "detections_term obs_flux obs_flux_err is_detection flux_model ln_like
           = Inr (ln_like + spec_gaussian flux_model obs_flux obs_flux_err (where_true is_detection))"
proof -
  have "map2 (\<lambda>w d. w * d\<^sup>2) (map (\<lambda>s. 1 / s\<^sup>2) (map ((!) obs_flux_err) js))
          (map2 (-) (map ((!) obs_flux) js) (map ((!) flux_model) js))
        = map (\<lambda>j. ((obs_flux ! j - flux_model ! j) / obs_flux_err ! j) ^ 2) js" for js
    by (induction js) (simp_all add: power_divide)
  then show ?thesis
    using assms
    by (simp add: detections_term_def mask_nth broadcast2_def spec_gaussian_def comp_def)
qed

lemma limit_term_eq:
  assumes "\<forall>x. -1 \<le> erf lb x"
  shows "(if 0.5 * (1 + erf lb ((m - x) / s / sqrt 2)) > 0
          then Fin (ln (0.5 * (1 + erf lb ((m - x) / s / sqrt 2)))) else MInf)
         = spec_limit_term lb m x s"
proof -
  have "0 \<le> 1 + erf lb ((m - x) / s / sqrt 2)"
    using assms [rule_format, of "(m - x) / s / sqrt 2"] by simp
  then show ?thesis
    by (auto simp: spec_limit_term_def spec_Phi_def)
qed

lemma limits_loop_eq:
  assumes "\<forall>x. -1 \<le> erf lb x"
    and "\<forall>j\<in>set js. j < length flux_model \<and> j < length obs_flux \<and> j < length obs_flux_err"
  shows "limits_loop lb flux_model obs_flux obs_flux_err js acc
           = Inr (fl_add acc (fl_sum_list (map (\<lambda>j. spec_limit_term lb (flux_model ! j)
                                   (obs_flux ! j) (obs_flux_err ! j)) js)))"
  using assms(2)
proof (induction js arbitrary: acc)
  case Nil
  then show ?case by simp
next
  case (Cons j js)
  then have j: "\<not> (length flux_model \<le> j \<or> length obs_flux \<le> j \<or> length obs_flux_err \<le> j)"
    and rest: "\<forall>j\<in>set js. j < length flux_model \<and> j < length obs_flux \<and> j < length obs_flux_err"
    by auto
  show ?case
    by (simp only: limits_loop.simps j if_False Let_def limit_term_eq [OF assms(1)]
          Cons.IH [OF rest] list.map fl_sum_list_simps fl_add_assoc)
qed

lemma where_true_set: "set (where_true m) = {j. j < length m \<and> m ! j}"
  by (auto simp: where_true_def)

lemma where_true_empty: "\<not> list_ex id m \<Longrightarrow> where_true m = []"
  unfolding where_true_def list_ex_iff filter_empty_conv
  by (metis atLeastLessThan_iff id_apply nth_mem set_upt)

lemma log_likelihood_decomposition:
  assumes "\<forall>x. -1 \<le> erf lb x"
    and "model_flux lb theta obs_wave obs_flux kappa_interp redshift distance n_components
            obs_wave_filters obs_trans_filters = Inr flux_model"
    and "length flux_model = length obs_limits" "length obs_flux = length obs_limits"
        "length obs_flux_err = length obs_limits"
  shows "log_likelihood lb theta obs_wave obs_flux obs_flux_err obs_limits kappa_interp redshift
           distance n_components obs_wave_filters obs_trans_filters
         = Inr (fl_add (Fin (spec_gaussian flux_model obs_flux obs_flux_err
                               (where_true (map Not obs_limits))))
                  (fl_sum_list (map (\<lambda>j. spec_limit_term lb (flux_model ! j) (obs_flux ! j)
                                        (obs_flux_err ! j)) (where_true obs_limits))))"
proof -
  have idx: "\<forall>j\<in>set (where_true obs_limits).
               j < length flux_model \<and> j < length obs_flux \<and> j < length obs_flux_err"
    using assms(3-5) by (simp add: where_true_set)
  have det: "(if list_ex id (map Not obs_limits)
              then detections_term obs_flux obs_flux_err (map Not obs_limits) flux_model 0
              else Inr 0)
             = Inr (spec_gaussian flux_model obs_flux obs_flux_err (where_true (map Not obs_limits)))"
  proof (cases "list_ex id (map Not obs_limits)")
    case True
    then show ?thesis using assms(3-5) by (simp add: detections_term_eq)
  next
    case False
    then have "where_true (map Not obs_limits) = []" by (rule where_true_empty)
    then show ?thesis using False by (simp add: spec_gaussian_def)
  qed
  have ll: "log_likelihood lb theta obs_wave obs_flux obs_flux_err obs_limits kappa_interp redshift
           distance n_components obs_wave_filters obs_trans_filters
        = (if list_ex id obs_limits
           then limits_loop lb flux_model obs_flux obs_flux_err (where_true obs_limits)
                  (Fin (spec_gaussian flux_model obs_flux obs_flux_err
                          (where_true (map Not obs_limits))))
           else Inr (Fin (spec_gaussian flux_model obs_flux obs_flux_err
                          (where_true (map Not obs_limits)))))"
    by (simp only: log_likelihood_def assms(2) Let_def sum.case det)
  show ?thesis
  proof (cases "list_ex id obs_limits")
    case True
    then show ?thesis by (simp only: ll if_True limits_loop_eq [OF assms(1) idx])
  next
    case False
    then have "where_true obs_limits = []" by (rule where_true_empty)
    then show ?thesis using False by (simp add: ll)
  qed
qed

lemma lower_fl_add: "lower a \<Longrightarrow> lower b \<Longrightarrow> lower (fl_add a b)"
  by (cases a; cases b) simp_all

lemma fl_add_mono_lower:
  "lower a \<Longrightarrow> lower a' \<Longrightarrow> lower b \<Longrightarrow> lower b' \<Longrightarrow> fl_le a a' \<Longrightarrow> fl_le b b' \<Longrightarrow>
   fl_le (fl_add a b) (fl_add a' b')"
  by (cases a; cases a'; cases b; cases b') simp_all

lemma lower_spec_limit_term: "lower (spec_limit_term lb m x s)"
  by (simp add: spec_limit_term_def)

lemma fl_sum_list_mono:
  assumes "\<forall>i\<in>set js. lower (f i) \<and> lower (g i) \<and> fl_le (f i) (g i)"
  shows "lower (fl_sum_list (map f js)) \<and> lower (fl_sum_list (map g js))
         \<and> fl_le (fl_sum_list (map f js)) (fl_sum_list (map g js))"
  using assms
  by (induction js) (simp_all add: lower_fl_add fl_add_mono_lower)

lemma fl_sum_list_MInf:
  assumes "\<forall>t\<in>set ts. lower t" "MInf \<in> set ts"
  shows "fl_sum_list ts = MInf"
  using assms
proof (induction ts)
  case Nil
  then show ?case by simp
next
  case (Cons t ts)
  have low: "lower (fl_sum_list ts)" using Cons.prems(1)
    by (induction ts) (simp_all add: lower_fl_add)
  show ?case
  proof (cases "t = MInf")
    case True
    then show ?thesis using low by (cases "fl_sum_list ts") simp_all
  next
    case False
    then have "fl_sum_list ts = MInf" using Cons by simp
    moreover have "lower t" using Cons.prems(1) by simp
    ultimately show ?thesis by (cases t) simp_all
  qed
qed

lemma where_true_all: "list_all id m \<Longrightarrow> where_true m = [0..<length m]"
  unfolding where_true_def list_all_iff filter_id_conv
  by (metis atLeastLessThan_iff id_apply nth_mem set_upt)

lemma where_true_not_all: "\<not> list_ex id m \<Longrightarrow> where_true (map Not m) = [0..<length m]"
proof -
  assume "\<not> list_ex id m"
  then have "list_all id (map Not m)" by (simp add: list_all_iff list_ex_iff)
  then show ?thesis using where_true_all [of "map Not m"] by simp
qed

lemma where_true_all_not: "list_all id m \<Longrightarrow> where_true (map Not m) = []"
proof -
  assume "list_all id m"
  then have "\<not> list_ex id (map Not m)" by (simp add: list_all_iff list_ex_iff)
  then show ?thesis by (rule where_true_empty)
qed

section \<open>The model on the instance\<close>

lemma demo_erf_bound: "\<forall>x. -1 \<le> erf demo_lib x"
  by (simp add: demo_lib_def)

lemma demo_erf_mono: "mono (erf demo_lib)"
  by (rule monoI) (auto simp: demo_lib_def)

lemma clamp_low: "y \<le> -1 \<Longrightarrow> max (-1) (min 1 y) = (-1::real)"
  by (simp add: max_def min_def)

lemma ten_sqrt2: "- 10 / sqrt 2 \<le> (-1::real)"
proof -
  have "sqrt 2 \<le> sqrt 100" by (rule real_sqrt_le_mono) simp
  then have "sqrt 2 \<le> 10" by simp
  then have "1 \<le> 10 / sqrt 2" by (simp add: field_simps)
  moreover have "- 10 / sqrt 2 = - (10 / sqrt 2)" by simp
  ultimately show ?thesis by linarith
qed

lemma demo_erf_sat: "erf demo_lib (- 10 / sqrt 2) = -1" "erf demo_lib 0 = 0"
  using clamp_low [OF ten_sqrt2] by (simp_all add: demo_lib_def)

lemma demo_flux: "model_flux demo_lib [0, 100] [10, 20] obs_flux [1, 1] 0 1 1 None None = Inr [1, 1]"
  by (simp add: model_flux_def calc_model_flux_def calc_luminosity_def calc_flux_def demo_lib_def)

lemma wt1: "where_true [False, True] = [1]" "where_true [True, False] = [0]"
  "where_true [False] = []" "where_true [True] = [0]"
  by (simp_all add: where_true_def upt_rec)

lemma demo_flux_one:
  "model_flux demo_lib [0, 100] [10] obs_flux [1] 0 1 1 None None = Inr [1]"
  by (simp add: model_flux_def calc_model_flux_def calc_luminosity_def calc_flux_def demo_lib_def)

lemma demo_flux_hot:
  "model_flux demo_lib [0, 200] [10] obs_flux [1] 0 1 1 None None = Inr [1]"
  by (simp add: model_flux_def calc_model_flux_def calc_luminosity_def calc_flux_def demo_lib_def)

section \<open>The term of an upper limit\<close>

text \<open>
  C5. On observations of equal lengths with positive uncertainties, and for an error
  function that is never below \<open>-1\<close>, every upper limit \<open>j\<close> adds \<open>log \<Phi>(z)\<close> to the
  log-likelihood, with \<open>z = (model - obs) / \<sigma>\<close> and \<open>\<Phi>(z) = (1 + erf (z / sqrt 2)) / 2\<close>; where
  that probability is zero the term is \<open>-\<infinity>\<close>, and then \<open>log_likelihood\<close> returns
  \<open>-\<infinity>\<close> and raises nothing.
\<close>

theorem upper_limit_contribution:
  assumes "\<forall>x. -1 \<le> erf lb x"
    and "model_flux lb theta obs_wave obs_flux kappa_interp redshift distance n_components
            obs_wave_filters obs_trans_filters = Inr flux_model"
    and "length flux_model = length obs_limits" "length obs_flux = length obs_limits"
        "length obs_flux_err = length obs_limits"
    and "\<forall>s\<in>set obs_flux_err. 0 < s"
  shows "log_likelihood lb theta obs_wave obs_flux obs_flux_err obs_limits kappa_interp redshift
           distance n_components obs_wave_filters obs_trans_filters
         = Inr (fl_add (Fin (spec_gaussian flux_model obs_flux obs_flux_err
                               (where_true (map Not obs_limits))))
                  (fl_sum_list (map (\<lambda>j. spec_limit_term lb (flux_model ! j) (obs_flux ! j)
                                        (obs_flux_err ! j)) (where_true obs_limits))))
       \<and> ((\<exists>j < length obs_limits. obs_limits ! j \<and>
              spec_Phi lb ((flux_model ! j - obs_flux ! j) / obs_flux_err ! j) = 0) \<longrightarrow>
            log_likelihood lb theta obs_wave obs_flux obs_flux_err obs_limits kappa_interp redshift
              distance n_components obs_wave_filters obs_trans_filters = Inr MInf)"
proof -
  let ?f = "\<lambda>j. spec_limit_term lb (flux_model ! j) (obs_flux ! j) (obs_flux_err ! j)"
  have dec: "log_likelihood lb theta obs_wave obs_flux obs_flux_err obs_limits kappa_interp redshift
           distance n_components obs_wave_filters obs_trans_filters
         = Inr (fl_add (Fin (spec_gaussian flux_model obs_flux obs_flux_err
                               (where_true (map Not obs_limits))))
                  (fl_sum_list (map ?f (where_true obs_limits))))"
    by (rule log_likelihood_decomposition [OF assms(1-5)])
  have "fl_sum_list (map ?f (where_true obs_limits)) = MInf"
    if "j < length obs_limits" "obs_limits ! j"
       "spec_Phi lb ((flux_model ! j - obs_flux ! j) / obs_flux_err ! j) = 0" for j
  proof (rule fl_sum_list_MInf)
    show "\<forall>t\<in>set (map ?f (where_true obs_limits)). lower t"
      by (simp add: lower_spec_limit_term)
    have "j \<in> set (where_true obs_limits)" using that(1,2) by (simp add: where_true_set)
    moreover have "?f j = MInf" using that(3) by (simp add: spec_limit_term_def)
    ultimately show "MInf \<in> set (map ?f (where_true obs_limits))" by force
  qed
  then show ?thesis using dec by auto
qed

theorem upper_limit_contribution_witness:
  "model_flux demo_lib [0, 100] [10, 20] [1, 11] [1, 1] 0 1 1 None None = Inr [1, 1]
   \<and> spec_Phi demo_lib (([1, 1] ! 1 - [1, 11] ! 1) / [1, 1] ! 1) = 0
   \<and> log_likelihood demo_lib [0, 100] [10, 20] [1, 11] [1, 1] [False, True] [1, 1] 0 1 1
        None None = Inr MInf"
proof -
  have zero: "spec_Phi demo_lib (([1, 1] ! 1 - [1, 11] ! 1) / [1, 1] ! 1) = 0"
    using demo_erf_sat(1) by (simp add: spec_Phi_def)
  then have ex: "\<exists>j < length [False, True]. [False, True] ! j \<and>
              spec_Phi demo_lib (([1, 1] ! j - [1, 11] ! j) / [1, 1] ! j) = 0"
    by (intro exI [of _ 1]) simp
  have "(\<exists>j < length [False, True]. [False, True] ! j \<and>
              spec_Phi demo_lib (([1, 1] ! j - [1, 11] ! j) / [1, 1] ! j) = 0) \<longrightarrow>
        log_likelihood demo_lib [0, 100] [10, 20] [1, 11] [1, 1] [False, True] [1, 1] 0 1 1
          None None = Inr MInf"
    by (rule conjunct2 [OF upper_limit_contribution [OF demo_erf_bound demo_flux]]) simp_all
  then have "log_likelihood demo_lib [0, 100] [10, 20] [1, 11] [1, 1] [False, True] [1, 1] 0 1 1
          None None = Inr MInf"
    using ex by (rule mp)
  then show ?thesis using zero demo_flux by simp
qed

section \<open>Observations without limits, or without detections\<close>

text \<open>
  C6. On observations of equal lengths with positive uncertainties: when no observation is
  an upper limit, \<open>log_likelihood\<close> is the Gaussian log-likelihood
  \<open>-1/2 \<Sum> ((obs - model) / \<sigma>)^2 - 1/2 \<Sum> log (2 \<pi> \<sigma>^2)\<close> over all observations; when every
  observation is an upper limit, it is the sum of the upper-limit terms alone. The empty
  group adds nothing in either case.
\<close>

theorem degenerate_observation_sets:
  assumes "\<forall>x. -1 \<le> erf lb x"
    and "model_flux lb theta obs_wave obs_flux kappa_interp redshift distance n_components
            obs_wave_filters obs_trans_filters = Inr flux_model"
    and "length flux_model = length obs_limits" "length obs_flux = length obs_limits"
        "length obs_flux_err = length obs_limits"
    and "\<forall>s\<in>set obs_flux_err. 0 < s"
  shows "(\<not> list_ex id obs_limits \<longrightarrow>
            log_likelihood lb theta obs_wave obs_flux obs_flux_err obs_limits kappa_interp redshift
              distance n_components obs_wave_filters obs_trans_filters
            = Inr (Fin (- (1 / 2) * (\<Sum>j\<leftarrow>[0..<length obs_limits].
                                        ((obs_flux ! j - flux_model ! j) / obs_flux_err ! j) ^ 2)
                        - (1 / 2) * (\<Sum>j\<leftarrow>[0..<length obs_limits].
                                        ln (2 * pi * (obs_flux_err ! j) ^ 2)))))
       \<and> (list_all id obs_limits \<longrightarrow>
            log_likelihood lb theta obs_wave obs_flux obs_flux_err obs_limits kappa_interp redshift
              distance n_components obs_wave_filters obs_trans_filters
            = Inr (fl_sum_list (map (\<lambda>j. spec_limit_term lb (flux_model ! j) (obs_flux ! j)
                                          (obs_flux_err ! j)) [0..<length obs_limits])))"
proof -
  have dec: "log_likelihood lb theta obs_wave obs_flux obs_flux_err obs_limits kappa_interp redshift
           distance n_components obs_wave_filters obs_trans_filters
         = Inr (fl_add (Fin (spec_gaussian flux_model obs_flux obs_flux_err
                               (where_true (map Not obs_limits))))
                  (fl_sum_list (map (\<lambda>j. spec_limit_term lb (flux_model ! j) (obs_flux ! j)
                                        (obs_flux_err ! j)) (where_true obs_limits))))"
    by (rule log_likelihood_decomposition [OF assms(1-5)])
  show ?thesis
  proof (intro conjI impI)
    assume no: "\<not> list_ex id obs_limits"
    show "log_likelihood lb theta obs_wave obs_flux obs_flux_err obs_limits kappa_interp redshift
              distance n_components obs_wave_filters obs_trans_filters
            = Inr (Fin (- (1 / 2) * (\<Sum>j\<leftarrow>[0..<length obs_limits].
                                        ((obs_flux ! j - flux_model ! j) / obs_flux_err ! j) ^ 2)
                        - (1 / 2) * (\<Sum>j\<leftarrow>[0..<length obs_limits].
                                        ln (2 * pi * (obs_flux_err ! j) ^ 2))))"
      by (simp only: dec where_true_empty [OF no] where_true_not_all [OF no] list.map
            fl_sum_list_simps fl_add_zero_right spec_gaussian_def)
  next
    assume all: "list_all id obs_limits"
    show "log_likelihood lb theta obs_wave obs_flux obs_flux_err obs_limits kappa_interp redshift
              distance n_components obs_wave_filters obs_trans_filters
            = Inr (fl_sum_list (map (\<lambda>j. spec_limit_term lb (flux_model ! j) (obs_flux ! j)
                                          (obs_flux_err ! j)) [0..<length obs_limits]))"
      by (simp add: dec where_true_all [OF all] where_true_all_not [OF all] spec_gaussian_def)
  qed
qed

theorem degenerate_observation_sets_witness:
  "log_likelihood demo_lib [0, 100] [10] [1] [1] [False] [1] 0 1 1 None None
     = Inr (Fin (- ln (2 * pi) / 2))
   \<and> log_likelihood demo_lib [0, 100] [10] [1] [1] [True] [1] 0 1 1 None None
     = Inr (Fin (ln (1 / 2)))"
proof -
  have "log_likelihood demo_lib [0, 100] [10] [1] [1] [False] [1] 0 1 1 None None
          = Inr (Fin (- ln (2 * pi) / 2))"
    using degenerate_observation_sets [OF demo_erf_bound demo_flux_one, of "[False]" "[1]" "[1]"]
    by simp
  moreover have "log_likelihood demo_lib [0, 100] [10] [1] [1] [True] [1] 0 1 1 None None
          = Inr (Fin (ln (1 / 2)))"
    using degenerate_observation_sets [OF demo_erf_bound demo_flux_one, of "[True]" "[1]" "[1]"]
      demo_erf_sat(2)
    by (simp add: spec_limit_term_def spec_Phi_def)
  ultimately show ?thesis by simp
qed

section \<open>Raising an upper limit\<close>

lemma model_flux_obs_flux_length:
  "length obs_flux' = length obs_flux \<Longrightarrow>
   model_flux lb theta obs_wave obs_flux' kappa_interp redshift distance n_components
     obs_wave_filters obs_trans_filters
   = model_flux lb theta obs_wave obs_flux kappa_interp redshift distance n_components
     obs_wave_filters obs_trans_filters"
  by (simp only: model_flux_def)

lemma spec_Phi_mono: "mono (erf lb) \<Longrightarrow> z \<le> z' \<Longrightarrow> spec_Phi lb z \<le> spec_Phi lb z'"
  by (simp add: spec_Phi_def monoD divide_right_mono)

lemma spec_limit_term_antitone:
  assumes "mono (erf lb)" "\<forall>x. -1 \<le> erf lb x" "0 < s" "x \<le> x'"
  shows "fl_le (spec_limit_term lb m x' s) (spec_limit_term lb m x s)"
proof -
  have z: "(m - x') / s \<le> (m - x) / s" using assms(3,4) by (simp add: divide_right_mono)
  have le: "spec_Phi lb ((m - x') / s) \<le> spec_Phi lb ((m - x) / s)"
    by (rule spec_Phi_mono [OF assms(1) z])
  have nonneg: "0 \<le> spec_Phi lb y" for y
    using assms(2) [rule_format, of "y / sqrt 2"] by (simp add: spec_Phi_def)
  show ?thesis
  proof (cases "spec_Phi lb ((m - x') / s) = 0")
    case True
    then show ?thesis by (simp add: spec_limit_term_def)
  next
    case False
    then have pos: "0 < spec_Phi lb ((m - x') / s)" using nonneg [of "(m - x') / s"] by simp
    then have pos': "0 < spec_Phi lb ((m - x) / s)" using le by simp
    show ?thesis using pos pos' le by (simp add: spec_limit_term_def)
  qed
qed

text \<open>
  C2 (what the code does, against the claim). The loop computes \<open>z = (model - obs) / \<sigma>\<close>,
  so for a monotone error function raising the flux threshold of an upper limit, with
  everything else fixed, never raises the log-likelihood: the term rewards a model above
  the limit and penalises a model below it. The claim states the opposite direction.
\<close>

theorem raising_upper_limit_lowers_log_likelihood:
  assumes "mono (erf lb)" "\<forall>x. -1 \<le> erf lb x"
    and "model_flux lb theta obs_wave obs_flux kappa_interp redshift distance n_components
            obs_wave_filters obs_trans_filters = Inr flux_model"
    and "length flux_model = length obs_limits" "length obs_flux = length obs_limits"
        "length obs_flux_err = length obs_limits"
    and "\<forall>s\<in>set obs_flux_err. 0 < s"
    and "k < length obs_limits" "obs_limits ! k" "obs_flux ! k \<le> raised"
  shows "\<exists>a b. log_likelihood lb theta obs_wave (obs_flux[k := raised]) obs_flux_err obs_limits
                 kappa_interp redshift distance n_components obs_wave_filters obs_trans_filters
               = Inr a
             \<and> log_likelihood lb theta obs_wave obs_flux obs_flux_err obs_limits
                 kappa_interp redshift distance n_components obs_wave_filters obs_trans_filters
               = Inr b
             \<and> fl_le a b"
proof -
  let ?obs' = "obs_flux[k := raised]"
  let ?dets = "where_true (map Not obs_limits)"
  let ?lims = "where_true obs_limits"
  let ?f = "\<lambda>j. spec_limit_term lb (flux_model ! j) (obs_flux ! j) (obs_flux_err ! j)"
  let ?f' = "\<lambda>j. spec_limit_term lb (flux_model ! j) (?obs' ! j) (obs_flux_err ! j)"
  have mf': "model_flux lb theta obs_wave ?obs' kappa_interp redshift distance n_components
            obs_wave_filters obs_trans_filters = Inr flux_model"
    using assms(3) model_flux_obs_flux_length [of ?obs' obs_flux] by simp
  have len': "length ?obs' = length obs_limits" using assms(5) by simp
  have b: "log_likelihood lb theta obs_wave obs_flux obs_flux_err obs_limits
                 kappa_interp redshift distance n_components obs_wave_filters obs_trans_filters
           = Inr (fl_add (Fin (spec_gaussian flux_model obs_flux obs_flux_err ?dets))
                    (fl_sum_list (map ?f ?lims)))"
    by (rule log_likelihood_decomposition [OF assms(2) assms(3) assms(4) assms(5) assms(6)])
  have a: "log_likelihood lb theta obs_wave ?obs' obs_flux_err obs_limits
                 kappa_interp redshift distance n_components obs_wave_filters obs_trans_filters
           = Inr (fl_add (Fin (spec_gaussian flux_model ?obs' obs_flux_err ?dets))
                    (fl_sum_list (map ?f' ?lims)))"
    by (rule log_likelihood_decomposition [OF assms(2) mf' assms(4) len' assms(6)])
  have "k \<notin> set ?dets" using assms(8,9) by (simp add: where_true_set)
  then have same: "\<forall>j\<in>set ?dets. ?obs' ! j = obs_flux ! j"
    by (metis nth_list_update_neq)
  have g: "spec_gaussian flux_model ?obs' obs_flux_err ?dets
           = spec_gaussian flux_model obs_flux obs_flux_err ?dets"
  proof -
    have "map (\<lambda>j. ((?obs' ! j - flux_model ! j) / obs_flux_err ! j) ^ 2) ?dets
          = map (\<lambda>j. ((obs_flux ! j - flux_model ! j) / obs_flux_err ! j) ^ 2) ?dets"
      using same by (intro map_cong) simp_all
    then show ?thesis by (simp only: spec_gaussian_def)
  qed
  have point: "\<forall>j\<in>set ?lims. lower (?f' j) \<and> lower (?f j) \<and> fl_le (?f' j) (?f j)"
  proof
    fix j assume j: "j \<in> set ?lims"
    then have jl: "j < length obs_flux_err" using assms(6) by (simp add: where_true_set)
    then have s: "0 < obs_flux_err ! j" using assms(7) by simp
    have jo: "j < length obs_flux" using j assms(5) by (simp add: where_true_set)
    have "obs_flux ! j \<le> ?obs' ! j"
      using assms(10) jo by (cases "j = k") simp_all
    then have "fl_le (?f' j) (?f j)"
      by (rule spec_limit_term_antitone [OF assms(1) assms(2) s])
    then show "lower (?f' j) \<and> lower (?f j) \<and> fl_le (?f' j) (?f j)"
      by (simp add: lower_spec_limit_term)
  qed
  have sums: "lower (fl_sum_list (map ?f' ?lims)) \<and> lower (fl_sum_list (map ?f ?lims))
         \<and> fl_le (fl_sum_list (map ?f' ?lims)) (fl_sum_list (map ?f ?lims))"
    by (rule fl_sum_list_mono [OF point])
  have "fl_le (fl_add (Fin (spec_gaussian flux_model ?obs' obs_flux_err ?dets))
                    (fl_sum_list (map ?f' ?lims)))
              (fl_add (Fin (spec_gaussian flux_model obs_flux obs_flux_err ?dets))
                    (fl_sum_list (map ?f ?lims)))"
    unfolding g using sums by (intro fl_add_mono_lower) simp_all
  then show ?thesis using a b by blast
qed

text \<open>
  One detection and one upper limit, the model at 1 Jy on both: with the limit at 1 Jy
  the log-likelihood is finite, with the limit raised to 11 Jy it is \<open>-\<infinity>\<close>.
\<close>

lemma demo_ll1: "log_likelihood demo_lib [0, 100] [10, 20] [1, 1] [1, 1] [False, True] [1, 1] 0 1 1
     None None = Inr (Fin (- ln (2 * pi) / 2 + ln (1 / 2)))"
  by (simp add: log_likelihood_def demo_flux detections_term_def mask_def broadcast2_def wt1
        demo_erf_sat Let_def)

lemma demo_ll2: "log_likelihood demo_lib [0, 100] [10, 20] [1, 11] [1, 1] [False, True] [1, 1] 0 1 1
     None None = Inr MInf"
  using demo_erf_sat(1)
  by (simp add: log_likelihood_def demo_flux detections_term_def mask_def broadcast2_def wt1
         Let_def)

theorem raising_upper_limit_lowers_log_likelihood_witness:
  "log_likelihood demo_lib [0, 100] [10, 20] ([1, 1][1 := 11]) [1, 1] [False, True] [1, 1] 0 1 1
     None None = Inr MInf
   \<and> log_likelihood demo_lib [0, 100] [10, 20] [1, 1] [1, 1] [False, True] [1, 1] 0 1 1
     None None = Inr (Fin (- ln (2 * pi) / 2 + ln (1 / 2)))
   \<and> fl_le MInf (Fin (- ln (2 * pi) / 2 + ln (1 / 2)))
   \<and> \<not> fl_le (Fin (- ln (2 * pi) / 2 + ln (1 / 2))) MInf"
  using raising_upper_limit_lowers_log_likelihood [OF demo_erf_mono demo_erf_bound demo_flux,
          of "[False, True]" "[1, 1]" "[1, 1]" 1 11] demo_ll1 demo_ll2
  by simp

section \<open>Two components\<close>

lemma calc_model_flux_length:
  assumes "calc_model_flux lb obs_wave dust_mass temperature redshift distance wave_kappa kappa
             (Some kappa_interp) grain_size composition interp_grain = Inr flux"
  shows "length flux = length obs_wave"
  using assms
  by (auto simp: calc_model_flux_def calc_luminosity_def calc_flux_def Let_def
           split: if_splits sum.splits)

text \<open>
  C8. Without filters, \<open>model_flux\<close> with two components is the elementwise sum of the two
  one-component evaluations on (log_mass_cold, T_cold) and (log_mass_hot, T_hot) with the
  same grids, redshift and distance, each of which has one entry per wavelength; it
  raises when one of the two raises. No term mixes the two components.
\<close>

theorem model_flux_two_components:
  "model_flux lb [log_mass_cold, temp_cold, log_mass_hot, temp_hot] obs_wave obs_flux kappa_interp
     redshift distance 2 None None =
   (case model_flux lb [log_mass_cold, temp_cold] obs_wave obs_flux kappa_interp redshift distance 1
           None None of
      Inl e \<Rightarrow> Inl e
    | Inr flux_cold \<Rightarrow>
       (case model_flux lb [log_mass_hot, temp_hot] obs_wave obs_flux kappa_interp redshift distance 1
               None None of
          Inl e \<Rightarrow> Inl e
        | Inr flux_hot \<Rightarrow> Inr (map2 (+) flux_cold flux_hot)))
   \<and> (\<forall>flux. model_flux lb [log_mass_cold, temp_cold] obs_wave obs_flux kappa_interp redshift
                distance 1 None None = Inr flux \<longrightarrow> length flux = length obs_wave)
   \<and> (\<forall>flux. model_flux lb [log_mass_hot, temp_hot] obs_wave obs_flux kappa_interp redshift
                distance 1 None None = Inr flux \<longrightarrow> length flux = length obs_wave)"
  by (auto simp: model_flux_def broadcast2_def split: sum.splits dest!: calc_model_flux_length)

theorem model_flux_two_components_witness:
  "model_flux demo_lib [0, 100] [10] [1] [1] 0 1 1 None None = Inr [1]
   \<and> model_flux demo_lib [0, 200] [10] [1] [1] 0 1 1 None None = Inr [1]
   \<and> model_flux demo_lib [0, 100, 0, 200] [10] [1] [1] 0 1 2 None None = Inr [2]"
  using model_flux_two_components [of demo_lib 0 100 0 200 "[10]" "[1]" "[1]" 0 1]
    demo_flux_one [of "[1]"] demo_flux_hot [of "[1]"]
  by simp

text \<open>
  With filters the two-component flux is again the elementwise sum, wherever the two
  one-component evaluations return and \<open>calc_filter_flux\<close> is additive in the spectrum
  it integrates.
\<close>

lemma map2_add_update:
  "(map2 (+) m1 m2)[i := a + b] = map2 (+) (m1[i := a]) (m2[i := b :: real])"
  by (simp add: zip_update map_update)

lemma apply_filters_additive:
  assumes "\<And>f1 f2 wf tf. length f1 = length f2 \<Longrightarrow>
             calc_filter_flux lb obs_wave (map2 (+) f1 f2) wf tf
               = calc_filter_flux lb obs_wave f1 wf tf + calc_filter_flux lb obs_wave f2 wf tf"
    and "length flux1 = length flux2" "length m1 = length m2"
  shows "apply_filters lb obs_wave (map2 (+) flux1 flux2) wfs tfs idxs (map2 (+) m1 m2) =
         (case apply_filters lb obs_wave flux1 wfs tfs idxs m1 of
            Inl e \<Rightarrow> Inl e
          | Inr r1 \<Rightarrow>
             (case apply_filters lb obs_wave flux2 wfs tfs idxs m2 of
                Inl e \<Rightarrow> Inl e
              | Inr r2 \<Rightarrow> Inr (map2 (+) r1 r2)))"
  using assms(3)
proof (induction idxs arbitrary: m1 m2)
  case Nil
  then show ?case by simp
next
  case (Cons i rest)
  show ?case
  proof (cases tfs)
    case None
    then show ?thesis by (simp cong: sum.case_cong split: sum.splits)
  next
    case (Some t)
    show ?thesis
    proof (cases "length t \<le> i \<or> length m1 \<le> i")
      case True
      then show ?thesis using Cons.prems unfolding Some by (auto cong: sum.case_cong split: sum.splits)
    next
      case False
      have len: "length (m1[i := a]) = length (m2[i := b])" for a b
        using Cons.prems by simp
      show ?thesis
        using False Cons.prems unfolding Some
        by (simp add: assms(1) [OF assms(2)] map2_add_update Cons.IH [OF len, unfolded Some]
              cong: sum.case_cong)
    qed
  qed
qed

lemma model_flux_two_components_filters:
  assumes add: "\<And>f1 f2 wf tf. length f1 = length f2 \<Longrightarrow>
             calc_filter_flux lb obs_wave (map2 (+) f1 f2) wf tf
               = calc_filter_flux lb obs_wave f1 wf tf + calc_filter_flux lb obs_wave f2 wf tf"
    and cold: "model_flux lb [log_mass_cold, temp_cold] obs_wave obs_flux kappa_interp redshift
                 distance 1 (Some wfs) tfs = Inr flux_cold"
    and hot: "model_flux lb [log_mass_hot, temp_hot] obs_wave obs_flux kappa_interp redshift
                 distance 1 (Some wfs) tfs = Inr flux_hot"
  shows "model_flux lb [log_mass_cold, temp_cold, log_mass_hot, temp_hot] obs_wave obs_flux
           kappa_interp redshift distance 2 (Some wfs) tfs = Inr (map2 (+) flux_cold flux_hot)"
proof -
  let ?zeros = "replicate (length obs_flux) (0::real)"
  obtain f1 where f1: "calc_model_flux lb obs_wave (10 powr log_mass_cold) temp_cold redshift
                         (Some distance) None None (Some kappa_interp) 0.1 ''carbon'' False = Inr f1"
    and a1: "apply_filters lb obs_wave f1 wfs tfs [0..<length wfs] ?zeros = Inr flux_cold"
    using cold by (auto simp: model_flux_def split: sum.splits)
  obtain f2 where f2: "calc_model_flux lb obs_wave (10 powr log_mass_hot) temp_hot redshift
                         (Some distance) None None (Some kappa_interp) 0.1 ''carbon'' False = Inr f2"
    and a2: "apply_filters lb obs_wave f2 wfs tfs [0..<length wfs] ?zeros = Inr flux_hot"
    using hot by (auto simp: model_flux_def split: sum.splits)
  have len: "length f1 = length f2"
    using calc_model_flux_length [OF f1] calc_model_flux_length [OF f2] by simp
  have "apply_filters lb obs_wave (map2 (+) f1 f2) wfs tfs [0..<length wfs] ?zeros
          = Inr (map2 (+) flux_cold flux_hot)"
    using apply_filters_additive [OF add len, of ?zeros ?zeros wfs tfs "[0..<length wfs]"] a1 a2
    by simp
  then show ?thesis
    using len by (simp add: model_flux_def f1 f2 broadcast2_def)
qed

section \<open>The posterior\<close>

text \<open>
  C7. Where \<open>log_prior\<close> returns a value, \<open>log_probability\<close> is that value plus
  \<open>log_likelihood\<close> when the value is finite (raising what the likelihood raises), and
  \<open>-\<infinity>\<close> when it is not, whatever the likelihood would return or raise there.
\<close>

theorem log_probability_short_circuit:
  assumes "log_prior theta n_components = Inr lp"
  shows "log_probability lb theta obs_wave obs_flux obs_flux_err obs_limits kappa_interp redshift
           distance n_components obs_wave_filters obs_trans_filters =
         (if isfinite lp then
            (case log_likelihood lb theta obs_wave obs_flux obs_flux_err obs_limits kappa_interp
                    redshift distance n_components obs_wave_filters obs_trans_filters of
               Inl e \<Rightarrow> Inl e
             | Inr ll \<Rightarrow> Inr (fl_add lp ll))
          else Inr MInf)"
  using assms by (simp add: log_probability_def)

theorem log_probability_short_circuit_witness:
  "log_prior [0, 100] 1 = Inr (Fin 0)
   \<and> log_probability demo_lib [0, 100] [10] [1] [1] [False] [1] 0 1 1 None None
       = Inr (Fin (- ln (2 * pi) / 2))
   \<and> log_prior [2, 100] 1 = Inr MInf
   \<and> log_likelihood demo_lib [2, 100] [10] [1] [1] [False] [] 0 1 1 None None = Inl ValueError
   \<and> log_probability demo_lib [2, 100] [10] [1] [1] [False] [] 0 1 1 None None = Inr MInf"
proof -
  have p1: "log_prior [0, 100] 1 = Inr (Fin 0)" by (simp add: log_prior_def)
  have p2: "log_prior [2, 100] 1 = Inr MInf" by (simp add: log_prior_def)
  have l1: "log_likelihood demo_lib [0, 100] [10] [1] [1] [False] [1] 0 1 1 None None
              = Inr (Fin (- ln (2 * pi) / 2))"
    by (simp add: log_likelihood_def demo_flux_one detections_term_def mask_def broadcast2_def)
  have l2: "log_likelihood demo_lib [2, 100] [10] [1] [1] [False] [] 0 1 1 None None
              = Inl ValueError"
    by (simp add: log_likelihood_def model_flux_def calc_model_flux_def calc_luminosity_def)
  show ?thesis
    using log_probability_short_circuit [OF p1, of demo_lib "[10]" "[1]" "[1]" "[False]" "[1]" 0 1 None None]
      log_probability_short_circuit [OF p2, of demo_lib "[10]" "[1]" "[1]" "[False]" "[]" 0 1 None None]
      p1 p2 l1 l2
    by simp
qed

section \<open>An ensemble in which every walker is an outlier\<close>

lemma where_true_none: "\<forall>b\<in>set m. \<not> b \<Longrightarrow> where_true m = []"
  unfolding where_true_def filter_empty_conv
  by (metis atLeastLessThan_iff nth_mem set_upt)

lemma where_true_every: "\<forall>b\<in>set m. b \<Longrightarrow> where_true m = [0..<length m]"
  unfolding where_true_def filter_id_conv
  by (metis atLeastLessThan_iff nth_mem set_upt)

lemma replace_outliers_no_candidate:
  "todo \<noteq> [] \<Longrightarrow>
   replace_outliers g n_dim sigma_clip stds [] last_pos todo new_pos c = Inl ValueError"
  by (cases todo) (simp_all add: random_choice_def)

lemma replace_invalid_all_finite:
  "replace_invalid g n_dim valid_rows (map Some rows) c = Inr (rows, c)"
  by (induction rows) simp_all

lemma finite_row_Fin: "finite_row (map Fin r) = Some r"
  by (induction r) simp_all

lemma length_valid_walkers: "length (valid_walkers n_dim sigma_clip rows) = length rows"
  by (simp add: valid_walkers_def)

lemma clip_without_valid_walker:
  assumes "rows \<noteq> []" "n_walkers = length rows"
    and "\<forall>b\<in>set (valid_walkers n_dim sigma_clip rows). \<not> b"
  shows "(if length (where_true (valid_walkers n_dim sigma_clip rows)) < n_walkers then
            replace_outliers g n_dim sigma_clip (clip_stds n_dim rows)
              (where_true (valid_walkers n_dim sigma_clip rows)) rows
              (where_true (map Not (valid_walkers n_dim sigma_clip rows))) rows c
          else Inr (rows, c)) = Inl ValueError"
proof -
  let ?valid = "valid_walkers n_dim sigma_clip rows"
  have none: "where_true ?valid = []" by (rule where_true_none [OF assms(3)])
  have "\<forall>b\<in>set (map Not ?valid). b" using assms(3) by simp
  then have "where_true (map Not ?valid) = [0..<length rows]"
    using where_true_every [of "map Not ?valid"] by (simp add: length_valid_walkers)
  then have todo: "where_true (map Not ?valid) \<noteq> []" using assms(1) by simp
  have lt: "length (where_true ?valid) < n_walkers" using none assms(1,2) by simp
  show ?thesis
    using lt by (simp add: none replace_outliers_no_candidate [OF todo])
qed

text \<open>
  C10. In a pass of the check and repair of \<open>mcmc_with_sigma_clipping\<close> on a non-empty
  ensemble, once the non-finite positions are replaced: if every walker is flagged as an
  outlier, so that no index is left in \<open>valid_indices\<close>, the pass raises \<open>ValueError\<close>
  (the choice among no candidates); it neither skips the repair nor carries the
  ensemble forward.
\<close>

theorem all_outliers_raise:
  assumes "replace_invalid g n_dim (List.map_filter id (map finite_row last_pos))
             (map finite_row last_pos) c = Inr (rows, c')"
    and "rows \<noteq> []" "n_walkers = length rows"
    and "\<forall>b\<in>set (valid_walkers n_dim sigma_clip rows). \<not> b"
  shows "check_repair g n_walkers n_dim sigma_clip last_pos c = Inl ValueError"
  by (simp only: check_repair_def Let_def assms(1) sum.case prod.case
        clip_without_valid_walker [OF assms(2-4)])

lemma upt4: "[0..<4] = [0, 1, 2, 3]"
  by (simp add: upt_rec)

lemma demo_columns:
  "column 0 demo_walkers = [2, -2, 0, 0, 0, 0, 0, 0]"
  "column (Suc 0) demo_walkers = [0, 0, 2, -2, 0, 0, 0, 0]"
  "column 2 demo_walkers = [0, 0, 0, 0, 2, -2, 0, 0]"
  "column 3 demo_walkers = [0, 0, 0, 0, 0, 0, 2, -2]"
  by (simp_all add: column_def demo_walkers_def)

lemma demo_medians: "clip_medians 4 demo_walkers = [0, 0, 0, 0]"
  by (simp add: clip_medians_def upt4 demo_columns median_def)

lemma demo_stds: "clip_stds 4 demo_walkers = [1, 1, 1, 1]"
  by (simp add: clip_stds_def upt4 demo_columns std_def mean_def)

lemma demo_flagged: "valid_walkers 4 2 demo_walkers = [False, False, False, False, False, False, False, False]"
  unfolding valid_walkers_def demo_medians demo_stds upt4
  by (simp add: demo_walkers_def)

lemma finite_rows_Fin: "map finite_row (map (map Fin) rows) = map Some rows"
  by (simp add: finite_row_Fin comp_def)

theorem all_outliers_raise_witness:
  "valid_walkers 4 2 demo_walkers = [False, False, False, False, False, False, False, False]
   \<and> check_repair demo_rng 8 4 2 (map (map Fin) demo_walkers) 0 = Inl ValueError"
proof -
  have a: "replace_invalid demo_rng 4 (List.map_filter id (map finite_row (map (map Fin) demo_walkers)))
             (map finite_row (map (map Fin) demo_walkers)) 0 = Inr (demo_walkers, 0)"
    by (simp only: finite_rows_Fin replace_invalid_all_finite)
  have b: "demo_walkers \<noteq> []" "8 = length demo_walkers" by (simp_all add: demo_walkers_def)
  have c: "\<forall>b\<in>set (valid_walkers 4 2 demo_walkers). \<not> b" by (simp add: demo_flagged)
  show ?thesis
    using all_outliers_raise [OF a b c] demo_flagged by simp
qed

text \<open>The error leaves \<open>mcmc_with_sigma_clipping\<close> itself as soon as a second run is asked for.\<close>

lemma mcmc_with_sigma_clipping_all_outliers:
  assumes "2 \<le> repeats" "pos = first # others" "length rows = length pos"
    and "last_positions (run_mcmc 0 pos n_steps) = Inr (map (map Fin) rows)"
    and "\<forall>b\<in>set (valid_walkers (length first) sigma_clip rows). \<not> b"
  shows "mcmc_with_sigma_clipping g run_mcmc pos n_steps sigma_clip repeats = Inl ValueError"
proof -
  obtain k where k: "nat (repeats - 1) = Suc k"
    using assms(1) by (metis Suc_pred' zero_less_nat_eq diff_gt_0_iff_gt less_le_trans one_less_numeral_iff semiring_norm(76))
  have rows: "rows \<noteq> []" using assms(2,3) by auto
  have a: "replace_invalid g (length first) (List.map_filter id (map finite_row (map (map Fin) rows)))
             (map finite_row (map (map Fin) rows)) 0 = Inr (rows, 0)"
    by (simp only: finite_rows_Fin replace_invalid_all_finite)
  have "check_repair g (length pos) (length first) sigma_clip (map (map Fin) rows) 0 = Inl ValueError"
    by (simp only: check_repair_def Let_def a sum.case prod.case
          clip_without_valid_walker [OF rows assms(3) [symmetric] assms(5)])
  moreover have "(case pos of [] \<Rightarrow> 0 | r # rest \<Rightarrow> length r) = length first"
    by (simp add: assms(2))
  ultimately show ?thesis
    by (simp add: mcmc_with_sigma_clipping_def k assms(4) Let_def)
qed

section \<open>The initial positions\<close>

lemma finite_prior_rows_sound:
  "finite_prior_rows n_components rows = Inr valid \<Longrightarrow> p \<in> set valid \<Longrightarrow>
   p \<in> set rows \<and> (\<exists>lp. log_prior p n_components = Inr lp \<and> isfinite lp)"
proof (induction rows arbitrary: valid)
  case Nil
  then show ?case by simp
next
  case (Cons i rest)
  then show ?case
    by (auto split: sum.splits if_splits)
qed

lemma finite_prior_rows_complete:
  "finite_prior_rows n_components rows = Inr valid \<Longrightarrow> p \<in> set rows \<Longrightarrow>
   log_prior p n_components = Inr lp \<Longrightarrow> isfinite lp \<Longrightarrow> p \<in> set valid"
proof (induction rows arbitrary: valid)
  case Nil
  then show ?case by simp
next
  case (Cons i rest)
  then show ?case
    by (auto split: sum.splits if_splits)
qed

lemma assemble_loop_returns:
  assumes "finite_prior_rows n_components pos_in = Inr valid" "valid \<noteq> []"
  shows "\<exists>k. assemble_loop n_components n_walkers pos_in pos_out
               = Some (Inr (pos_out @ concat (replicate k valid)))
             \<and> n_walkers \<le> length pos_out + k * length valid
             \<and> (k = 0 \<or> length pos_out + (k - 1) * length valid < n_walkers)"
proof (induction "n_walkers - length pos_out" arbitrary: pos_out rule: less_induct)
  case less
  show ?case
  proof (cases "length pos_out < n_walkers")
    case False
    then have "assemble_loop n_components n_walkers pos_in pos_out = Some (Inr pos_out)"
      by (subst assemble_loop.simps) simp
    then show ?thesis using False by (intro exI [of _ 0]) simp
  next
    case True
    have pos: "0 < length valid" using assms(2) by simp
    then have "n_walkers - length (pos_out @ valid) < n_walkers - length pos_out"
      using True unfolding length_append by linarith
    from less [OF this] obtain k where
      k: "assemble_loop n_components n_walkers pos_in (pos_out @ valid)
            = Some (Inr ((pos_out @ valid) @ concat (replicate k valid)))"
         "n_walkers \<le> length (pos_out @ valid) + k * length valid"
         "k = 0 \<or> length (pos_out @ valid) + (k - 1) * length valid < n_walkers"
      by blast
    have "assemble_loop n_components n_walkers pos_in pos_out
            = assemble_loop n_components n_walkers pos_in (pos_out @ valid)"
      by (subst assemble_loop.simps) (simp add: True assms(1))
    then have "assemble_loop n_components n_walkers pos_in pos_out
            = Some (Inr (pos_out @ concat (replicate (Suc k) valid)))"
      using k(1) by simp
    moreover have "n_walkers \<le> length pos_out + Suc k * length valid" using k(2) by simp
    moreover have "length pos_out + (Suc k - 1) * length valid < n_walkers"
      using k(3) True by (cases k) auto
    ultimately show ?thesis by blast
  qed
qed

lemma assemble_loop_never_ends:
  assumes "assemble_loop n_components n_walkers pos_in pos_out = Some r"
    and "finite_prior_rows n_components pos_in = Inr []" "length pos_out < n_walkers"
  shows False
proof -
  have "finite_prior_rows n_components pos_in = Inr [] \<longrightarrow> length pos_out < n_walkers \<longrightarrow> False"
  proof (rule assemble_loop.raw_induct
      [where P = "\<lambda>nc n pin pout r. finite_prior_rows nc pin = Inr [] \<longrightarrow> length pout < n \<longrightarrow> False",
        OF _ assms(1)])
    fix loop nc n pin pout res
    assume ih: "\<And>nc n pin pout r. loop nc n pin pout = Some r \<Longrightarrow>
                  finite_prior_rows nc pin = Inr [] \<longrightarrow> length pout < n \<longrightarrow> False"
      and body: "(if length pout < n
                  then case finite_prior_rows nc pin of
                         Inl e \<Rightarrow> Some (Inl e)
                       | Inr pos \<Rightarrow> loop nc n pin (pout @ pos)
                  else Some (Inr pout)) = Some res"
    show "finite_prior_rows nc pin = Inr [] \<longrightarrow> length pout < n \<longrightarrow> False"
    proof (intro impI)
      assume e: "finite_prior_rows nc pin = Inr []" and l: "length pout < n"
      from body e l have "loop nc n pin pout = Some res" by simp
      from ih [OF this] e l show False by simp
    qed
  qed
  then show False using assms(2,3) by simp
qed

lemma assemble_loop_diverges:
  "finite_prior_rows n_components pos_in = Inr [] \<Longrightarrow> length pos_out < n_walkers \<Longrightarrow>
   assemble_loop n_components n_walkers pos_in pos_out = None"
  using assemble_loop_never_ends by (cases "assemble_loop n_components n_walkers pos_in pos_out") auto

lemma length_concat_replicate: "length (concat (replicate k xs)) = k * length xs"
  by (induction k) simp_all

lemma set_concat_replicate: "set (concat (replicate k xs)) \<subseteq> set xs"
  by (induction k) auto

lemma assemble_loop_done:
  "\<not> length pos_out < n_walkers \<Longrightarrow>
   assemble_loop n_components n_walkers pos_in pos_out = Some (Inr pos_out)"
  by (subst assemble_loop.simps) simp

lemma assemble_loop_step:
  "length pos_out < n_walkers \<Longrightarrow> finite_prior_rows n_components pos_in = Inr pos \<Longrightarrow>
   assemble_loop n_components n_walkers pos_in pos_out
     = assemble_loop n_components n_walkers pos_in (pos_out @ pos)"
  by (subst assemble_loop.simps) simp

text \<open>
  The initialisation filters the one batch that was drawn and never draws again. When the
  batch of \<open>n_walkers\<close> samples holds at least one sample of finite prior, and the first
  sample has a finite prior or the number of such samples does not divide
  \<open>n_walkers - 1\<close>, the loop ends with exactly \<open>n_walkers\<close> positions, each of them a
  sample of the batch with a finite \<open>log_prior\<close>: the valid samples, repeated in order.
\<close>

lemma initial_positions_off_the_slip:
  assumes "finite_prior_rows n_components pos_in = Inr valid" "valid \<noteq> []"
    and "length pos_in = n_walkers"
    and "hd pos_in \<in> set valid \<or> \<not> length valid dvd (n_walkers - 1)"
  shows "\<exists>pos. initial_positions n_components n_walkers pos_in = Some (Inr pos)
           \<and> length pos = n_walkers
           \<and> (\<forall>p\<in>set pos. p \<in> set pos_in
                 \<and> (\<exists>lp. log_prior p n_components = Inr lp \<and> isfinite lp))"
proof -
  obtain v where "v \<in> set valid" using assms(2) by (cases valid) auto
  then have "v \<in> set pos_in" using finite_prior_rows_sound [OF assms(1)] by blast
  then have ne: "pos_in \<noteq> []" by auto
  then have first: "take 1 pos_in = [hd pos_in]" by (cases pos_in) simp_all
  have n1: "1 \<le> n_walkers" using ne assms(3) by (cases pos_in) auto
  obtain k where
    k: "assemble_loop n_components n_walkers pos_in [hd pos_in]
          = Some (Inr ([hd pos_in] @ concat (replicate k valid)))"
       "n_walkers \<le> length [hd pos_in] + k * length valid"
    using assemble_loop_returns [OF assms(1,2), of n_walkers "[hd pos_in]"] by blast
  let ?rep = "concat (replicate k valid)"
  let ?out = "[hd pos_in] @ ?rep"
  have lrep: "length ?rep = k * length valid" by (rule length_concat_replicate)
  have srep: "set ?rep \<subseteq> set valid" by (rule set_concat_replicate)
  have good: "p \<in> set pos_in \<and> (\<exists>lp. log_prior p n_components = Inr lp \<and> isfinite lp)"
    if "p \<in> set valid" for p
    using finite_prior_rows_sound [OF assms(1) that] .
  show ?thesis
  proof (cases "length ?out = n_walkers")
    case True
    then have "n_walkers - 1 = k * length valid" using lrep by simp
    then have "length valid dvd (n_walkers - 1)" by simp
    then have "hd pos_in \<in> set valid" using assms(4) by simp
    then have "set ?out \<subseteq> set valid" using srep by simp
    moreover have "initial_positions n_components n_walkers pos_in = Some (Inr ?out)"
      unfolding initial_positions_def first k(1) using True by simp
    ultimately show ?thesis using True good by (intro exI [of _ ?out]) auto
  next
    case False
    then have more: "n_walkers \<le> length ?rep" using k(2) lrep by simp
    let ?pos = "take n_walkers ?rep"
    have "initial_positions n_components n_walkers pos_in = Some (Inr ?pos)"
      unfolding initial_positions_def first k(1) using False by simp
    moreover have "length ?pos = n_walkers" using more by simp
    moreover have "set ?pos \<subseteq> set valid" using srep set_take_subset [of n_walkers ?rep] by blast
    ultimately show ?thesis using good by (intro exI [of _ ?pos]) auto
  qed
qed

lemma initial_positions_repeats_batch:
  "initial_positions 2 4 [[0, 1000, 0, 500], [0, 100, 0, 500], [-1, 200, -2, 900], [2, 100, 0, 500]]
     = Some (Inr [[0, 100, 0, 500], [-1, 200, -2, 900], [0, 100, 0, 500], [-1, 200, -2, 900]])"
proof -
  have v: "finite_prior_rows 2
             [[0, 1000, 0, 500], [0, 100, 0, 500], [-1, 200, -2, 900], [2, 100, 0, 500]]
           = Inr [[0, 100, 0, 500], [-1, 200, -2, 900]]"
    by (simp add: log_prior_def)
  show ?thesis
    by (simp add: initial_positions_def assemble_loop_step [OF _ v] assemble_loop_done)
qed

text \<open>
  On every other batch with a valid sample, that is whenever the number of valid samples
  divides \<open>n_walkers - 1\<close>, the loop stops at length \<open>n_walkers\<close>, the crop is skipped and
  the first drawn sample stays first among the positions, whatever its prior.
\<close>

lemma initial_positions_seed_kept:
  assumes "finite_prior_rows n_components pos_in = Inr valid" "valid \<noteq> []"
    and "length pos_in = n_walkers" "length valid dvd (n_walkers - 1)"
  shows "\<exists>k. initial_positions n_components n_walkers pos_in
               = Some (Inr (hd pos_in # concat (replicate k valid)))"
proof -
  obtain v where "v \<in> set valid" using assms(2) by (cases valid) auto
  then have "v \<in> set pos_in" using finite_prior_rows_sound [OF assms(1)] by blast
  then have ne: "pos_in \<noteq> []" by auto
  then have first: "take 1 pos_in = [hd pos_in]" by (cases pos_in) simp_all
  have n1: "1 \<le> n_walkers" using ne assms(3) by (cases pos_in) auto
  have vpos: "0 < length valid" using assms(2) by simp
  obtain k where
    k: "assemble_loop n_components n_walkers pos_in [hd pos_in]
          = Some (Inr ([hd pos_in] @ concat (replicate k valid)))"
       "n_walkers \<le> length [hd pos_in] + k * length valid"
       "k = 0 \<or> length [hd pos_in] + (k - 1) * length valid < n_walkers"
    using assemble_loop_returns [OF assms(1,2), of n_walkers "[hd pos_in]"] by blast
  obtain m where m: "n_walkers - 1 = length valid * m" using assms(4) by (auto simp: dvd_def)
  have upper: "m \<le> k"
  proof -
    have "n_walkers - 1 \<le> k * length valid" using k(2) by simp
    then have "length valid * m \<le> length valid * k" using m by (simp add: mult.commute)
    then show ?thesis using vpos by simp
  qed
  have lower: "k \<le> m"
  proof (cases "k = 0")
    case True
    then show ?thesis by simp
  next
    case False
    then have "1 + (k - 1) * length valid < n_walkers" using k(3) by simp
    then have "(k - 1) * length valid < n_walkers - 1" by linarith
    then have "length valid * (k - 1) < length valid * m" using m by (simp add: mult.commute)
    then have "k - 1 < m" by (simp only: mult_less_cancel1)
    then show ?thesis using False by linarith
  qed
  have "k = m" using upper lower by simp
  then have len: "length ([hd pos_in] @ concat (replicate k valid)) = n_walkers"
    using m n1 by (simp add: length_concat_replicate mult.commute)
  have "initial_positions n_components n_walkers pos_in
          = Some (Inr ([hd pos_in] @ concat (replicate k valid)))"
    unfolding initial_positions_def first k(1) using len by simp
  then show ?thesis by auto
qed

text \<open>
  C4 (where the code departs from it). The loop filters on the prior and the crop
  \<open>pos_out[1:n_walkers+1]\<close> drops the unfiltered seed \<open>pos_in[0:1]\<close>, but only when the
  length is not \<open>n_walkers\<close>. With two components and a first sample whose hot temperature
  is below the cold one, of three samples with two valid ones, and likewise of ten samples
  with nine valid ones, the loop stops at length \<open>n_walkers\<close> after one round and the
  positions passed on hold that first sample, of prior \<open>-\<infinity>\<close>; nothing was drawn again.
\<close>

theorem initial_positions_keeps_unfiltered_seed:
  "initial_positions 2 3 [[0, 1000, 0, 500], [0, 100, 0, 500], [-1, 200, -2, 900]]
     = Some (Inr [[0, 1000, 0, 500], [0, 100, 0, 500], [-1, 200, -2, 900]])
   \<and> initial_positions 2 10
       [[0, 1000, 0, 500], [0, 100, 0, 500], [-1, 200, -2, 900], [-2, 300, -3, 1000],
        [-3, 400, -4, 1100], [-4, 500, -5, 1200], [-5, 600, -6, 1300], [0, 700, -7, 1400],
        [-1, 800, 0, 1500], [-2, 900, -1, 1600]]
     = Some (Inr [[0, 1000, 0, 500], [0, 100, 0, 500], [-1, 200, -2, 900], [-2, 300, -3, 1000],
        [-3, 400, -4, 1100], [-4, 500, -5, 1200], [-5, 600, -6, 1300], [0, 700, -7, 1400],
        [-1, 800, 0, 1500], [-2, 900, -1, 1600]])
   \<and> log_prior [0, 1000, 0, 500] 2 = Inr MInf"
proof -
  have v: "finite_prior_rows 2 [[0, 1000, 0, 500], [0, 100, 0, 500], [-1, 200, -2, 900]]
             = Inr [[0, 100, 0, 500], [-1, 200, -2, 900]]"
    by (simp add: log_prior_def)
  have w: "finite_prior_rows 2
       [[0, 1000, 0, 500], [0, 100, 0, 500], [-1, 200, -2, 900], [-2, 300, -3, 1000],
        [-3, 400, -4, 1100], [-4, 500, -5, 1200], [-5, 600, -6, 1300], [0, 700, -7, 1400],
        [-1, 800, 0, 1500], [-2, 900, -1, 1600]]
     = Inr [[0, 100, 0, 500], [-1, 200, -2, 900], [-2, 300, -3, 1000],
        [-3, 400, -4, 1100], [-4, 500, -5, 1200], [-5, 600, -6, 1300], [0, 700, -7, 1400],
        [-1, 800, 0, 1500], [-2, 900, -1, 1600]]"
    by (simp add: log_prior_def)
  have a: "initial_positions 2 3 [[0, 1000, 0, 500], [0, 100, 0, 500], [-1, 200, -2, 900]]
     = Some (Inr [[0, 1000, 0, 500], [0, 100, 0, 500], [-1, 200, -2, 900]])"
    by (simp add: initial_positions_def assemble_loop_step [OF _ v] assemble_loop_done)
  have b: "initial_positions 2 10
       [[0, 1000, 0, 500], [0, 100, 0, 500], [-1, 200, -2, 900], [-2, 300, -3, 1000],
        [-3, 400, -4, 1100], [-4, 500, -5, 1200], [-5, 600, -6, 1300], [0, 700, -7, 1400],
        [-1, 800, 0, 1500], [-2, 900, -1, 1600]]
     = Some (Inr [[0, 1000, 0, 500], [0, 100, 0, 500], [-1, 200, -2, 900], [-2, 300, -3, 1000],
        [-3, 400, -4, 1100], [-4, 500, -5, 1200], [-5, 600, -6, 1300], [0, 700, -7, 1400],
        [-1, 800, 0, 1500], [-2, 900, -1, 1600]])"
    by (simp add: initial_positions_def assemble_loop_step [OF _ w] assemble_loop_done)
  have c: "log_prior [0, 1000, 0, 500] 2 = Inr MInf" by (simp add: log_prior_def)
  show ?thesis using a b c by (intro conjI)
qed

section \<open>The summary of the chain and the burn-in\<close>

text \<open>
  On a chain of \<open>repeats\<close> runs of \<open>n_steps\<close> steps the retained samples are those of the
  specification when \<open>repeats > 1\<close>, and also for a single run as long as
  \<open>int(n_steps * (1 - burn_in))\<close> is at least 1.
\<close>

lemma slice_from_last: "0 < k \<Longrightarrow> slice_from (- k) xs = drop (length xs - nat k) xs"
  by (auto simp: slice_from_def nat_diff_distrib' intro!: arg_cong [where f = "\<lambda>n. drop n xs"])

lemma slice_from_zero: "slice_from 0 xs = xs"
  by (simp add: slice_from_def)

lemma samples_crop_final_cycle:
  assumes "1 < repeats" "0 \<le> n_steps" "\<forall>w\<in>set chain. int (length w) = repeats * n_steps"
  shows "samples_crop repeats n_steps burn_in chain = spec_samples_crop repeats n_steps burn_in chain"
proof (cases "n_steps = 0")
  case True
  then have "\<forall>w\<in>set chain. w = []" using assms(3) by simp
  then have eq: "map (slice_from (- n_steps)) chain = map (\<lambda>w. drop (length w - nat n_steps) w) chain"
    by (intro map_cong) (simp_all add: True slice_from_zero)
  show ?thesis unfolding samples_crop_def spec_samples_crop_def eq using assms(1) by simp
next
  case False
  then have "0 < n_steps" using assms(2) by simp
  then have eq: "map (slice_from (- n_steps)) chain = map (\<lambda>w. drop (length w - nat n_steps) w) chain"
    by (intro map_cong) (simp_all add: slice_from_last)
  show ?thesis unfolding samples_crop_def spec_samples_crop_def eq using assms(1) by simp
qed

lemma samples_crop_burn_in:
  assumes "repeats \<le> 1" "1 \<le> py_int (real_of_int n_steps * (1 - burn_in))"
    and "\<forall>w\<in>set chain. int (length w) = n_steps"
  shows "samples_crop repeats n_steps burn_in chain = spec_samples_crop repeats n_steps burn_in chain"
proof -
  let ?k = "py_int (real_of_int n_steps * (1 - burn_in))"
  have pos: "0 \<le> real_of_int n_steps * (1 - burn_in)"
  proof (rule ccontr)
    assume "\<not> 0 \<le> real_of_int n_steps * (1 - burn_in)"
    then have "real_of_int n_steps * (1 - burn_in) < 0" by simp
    then have "?k \<le> 0" by (simp add: py_int_def ceiling_le_iff)
    then show False using assms(2) by simp
  qed
  then have k: "?k = \<lfloor>real_of_int n_steps * (1 - burn_in)\<rfloor>" by (simp add: py_int_def)
  have "real_of_int n_steps * (1 - burn_in) = - (real_of_int n_steps * burn_in) + of_int n_steps"
    by (simp add: algebra_simps)
  then have "\<lfloor>real_of_int n_steps * (1 - burn_in)\<rfloor>
             = \<lfloor>- (real_of_int n_steps * burn_in)\<rfloor> + n_steps"
    by (simp only: floor_add_int)
  then have "?k = n_steps - \<lceil>real_of_int n_steps * burn_in\<rceil>"
    unfolding k ceiling_def by simp
  then have eq: "n_steps - ?k = \<lceil>real_of_int n_steps * burn_in\<rceil>" by simp
  have "slice_from (- ?k) w = drop (nat \<lceil>real_of_int n_steps * burn_in\<rceil>) w"
    if "w \<in> set chain" for w
  proof -
    have len: "int (length w) = n_steps" using assms(3) that by simp
    have "slice_from (- ?k) w = drop (nat (int (length w) - ?k)) w"
      using assms(2) by (simp add: slice_from_def)
    then show ?thesis using len eq by simp
  qed
  then have eq: "map (slice_from (- ?k)) chain
             = map (\<lambda>w. drop (nat \<lceil>real_of_int n_steps * burn_in\<rceil>) w) chain"
    by (intro map_cong) simp_all
  show ?thesis unfolding samples_crop_def spec_samples_crop_def eq using assms(1) by simp
qed

text \<open>
  The summary itself: every parameter, and the total dust mass \<open>10^log_mass\<close> summed over
  the components, is reported as the median, the 84.13th percentile minus the median and
  the median minus the 15.87th percentile of the retained samples.
\<close>

lemma fit_summary_intervals:
  "fit_summary percentile 2 repeats n_steps burn_in chain =
     (let crop = samples_crop repeats n_steps burn_in chain;
          interval = (\<lambda>xs. (percentile xs 50, percentile xs 84.13 - percentile xs 50,
                              percentile xs 50 - percentile xs 15.87))
      in Inr [(''log_dust_mass_cold'', interval (map (\<lambda>r. r ! 0) crop)),
              (''temp_cold'', interval (map (\<lambda>r. r ! 1) crop)),
              (''log_dust_mass_hot'', interval (map (\<lambda>r. r ! 2) crop)),
              (''temperature_hot'', interval (map (\<lambda>r. r ! 3) crop)),
              (''total_dust_mass'', interval (map (\<lambda>r. 10 powr (r ! 0) + 10 powr (r ! 2)) crop))])"
  "fit_summary percentile 1 repeats n_steps burn_in chain =
     (let crop = samples_crop repeats n_steps burn_in chain;
          interval = (\<lambda>xs. (percentile xs 50, percentile xs 84.13 - percentile xs 50,
                              percentile xs 50 - percentile xs 15.87))
      in Inr [(''log_dust_mass_cold'', interval (map (\<lambda>r. r ! 0) crop)),
              (''temp_cold'', interval (map (\<lambda>r. r ! 1) crop)),
              (''total_dust_mass'', interval (map (\<lambda>r. 10 powr (r ! 0)) crop))])"
  by (simp_all add: fit_summary_def results_of_def interval_of_def column_def Let_def)

text \<open>
  C9 (where the code departs from it). For a single run of 3 steps with \<open>burn_in = 0.75\<close>,
  \<open>int(3 * 0.25)\<close> is 0 and the slice \<open>chain[:, -0:]\<close> is the whole chain: all three steps
  are retained and nothing is discarded as burn-in, where the claim (and the docstring of
  \<open>burn_in\<close>, the fraction of steps to discard) has the first steps discarded.
\<close>

theorem burn_in_not_discarded:
  "samples_crop 1 3 (3 / 4) [[[0, 100], [-1, 150], [-2, 200]]]
     = [[0, 100], [-1, 150], [-2, 200]]
   \<and> spec_samples_crop 1 3 (3 / 4) [[[0, 100], [-1, 150], [-2, 200]]] = []"
proof -
  have "py_int (real_of_int 3 * (1 - 3 / 4)) = 0" by (simp add: py_int_def)
  moreover have "\<lceil>real_of_int 3 * (3 / 4)\<rceil> = 3"
    by (simp add: ceiling_eq_iff)
  ultimately show ?thesis
    by (simp add: samples_crop_def spec_samples_crop_def slice_from_def)
qed

end
